theory Spec2Isabelle
  imports Main
begin

section \<open>Multiaddresses\<close>

text \<open>
  The transport inspects addresses only through go-multiaddr: it walks the components of
  an address and looks at the protocol code of each. An address is modelled as the list of
  its components, a component as its protocol code and its value. The addresses handed to
  the transport are values of the library's address type and are not \<open>nil\<close>. The library's
  split functions hand out \<open>nil\<close> for a part without components: such a part is a
  \<open>Multiaddr option\<close>, \<open>None\<close> for \<open>nil\<close>. Using a \<open>nil\<close> address (calling a method on it, or
  passing it to \<open>ma.SplitFirst\<close>) dereferences a nil interface and panics.
\<close>

datatype Component = Component (Code: int) (Val: string)

type_synonym Multiaddr = "Component list"

text \<open>A call either returns a value or panics; a panic unwinds the calling functions, running
  their deferred calls, and is not an error value that a caller can test.\<close>

datatype 'a outcome = Returns 'a | Panics string

definition P_CIRCUIT :: int where
  "P_CIRCUIT = 290"

definition P_WEBRTC :: int where
  "P_WEBRTC = 281"

definition P_P2P :: int where
  "P_P2P = 421"

definition P_IP4 :: int where
  "P_IP4 = 4"

text \<open>\<open>WebRTCAddr = ma.StringCast("/webrtc")\<close>: the single component \<open>/webrtc\<close>, which carries
  no value.\<close>

definition WebRTCAddr :: Multiaddr where
  "WebRTCAddr = [Component P_WEBRTC []]"

text \<open>\<open>ma.ForEach\<close> calls the callback on every component in order until the callback returns
  false. The variables the Go closure captures are the state \<open>s\<close> that the callback threads.\<close>

fun ForEach :: "Multiaddr \<Rightarrow> (Component \<Rightarrow> 's \<Rightarrow> bool \<times> 's) \<Rightarrow> 's \<Rightarrow> 's" where
  "ForEach [] cb s = s"
| "ForEach (c # cs) cb s =
     (case cb c s of (continue, s') \<Rightarrow> if continue then ForEach cs cb s' else s')"

text \<open>The components before the first one on which the callback returns true, and the
  components from that one on.\<close>

fun splitWhen :: "Multiaddr \<Rightarrow> (Component \<Rightarrow> bool) \<Rightarrow> Multiaddr \<times> Multiaddr" where
  "splitWhen [] cb = ([], [])"
| "splitWhen (c # cs) cb =
     (if cb c then ([], c # cs)
      else (case splitWhen cs cb of (first, rest) \<Rightarrow> (c # first, rest)))"

text \<open>\<open>ma.SplitFunc\<close> splits the address at the first component on which the callback returns
  true; that component starts the second part. A part without components is \<open>nil\<close>.\<close>

definition SplitFunc ::
  "Multiaddr \<Rightarrow> (Component \<Rightarrow> bool) \<Rightarrow> Multiaddr option \<times> Multiaddr option" where
  "SplitFunc m cb =
     (case splitWhen m cb of (first, rest) \<Rightarrow>
        (if first = [] then None else Some first, if rest = [] then None else Some rest))"

text \<open>\<open>ma.SplitFirst\<close> returns the first component and the rest of the address, \<open>nil\<close> for a
  rest without components. It reads the bytes of its argument, so it panics on \<open>nil\<close>.\<close>

fun SplitFirst :: "Multiaddr option \<Rightarrow> (Component option \<times> Multiaddr option) outcome" where
  "SplitFirst None = Panics ''nil pointer dereference''"
| "SplitFirst (Some []) = Returns (None, None)"
| "SplitFirst (Some [c]) = Returns (Some c, None)"
| "SplitFirst (Some (c # d # cs)) = Returns (Some c, Some (d # cs))"

text \<open>\<open>m.Encapsulate(other)\<close> on an address \<open>m\<close> that is not \<open>nil\<close>. (The call on a \<open>nil\<close>
  address does not reach the method: it panics where it is made.)\<close>

definition Encapsulate :: "Multiaddr \<Rightarrow> Multiaddr \<Rightarrow> Multiaddr" where
  "Encapsulate m other = m @ other"

subsection \<open>CanDial\<close>

text \<open>The closure passed to \<open>ma.ForEach\<close> in \<open>CanDial\<close>; the state is the pair of the captured
  variables \<open>(circuit, webrtc)\<close>.\<close>

definition canDialVisit :: "Component \<Rightarrow> bool \<times> bool \<Rightarrow> bool \<times> (bool \<times> bool)" where
  "canDialVisit c s =
     (case s of (circuit, webrtc) \<Rightarrow>
        if Code c = P_CIRCUIT then (True, (True, webrtc))
        else if circuit then (False, (circuit, Code c = P_WEBRTC))
        else (True, (circuit, webrtc)))"

definition CanDial :: "Multiaddr \<Rightarrow> bool" where
  "CanDial addr =
     (case ForEach addr canDialVisit (False, False) of (circuit, webrtc) \<Rightarrow> circuit \<and> webrtc)"

subsection \<open>getRelayAddr\<close>

text \<open>\<open>getRelayAddr\<close>. It panics in \<open>ma.SplitFirst(rest)\<close> when \<open>ma.SplitFunc\<close> finds no
  \<open>/webrtc\<close> component (\<open>rest\<close> is \<open>nil\<close>), and in \<open>first.Encapsulate(rest)\<close> when the address
  starts with \<open>/webrtc\<close> (\<open>first\<close> is \<open>nil\<close>) and has further components.\<close>

definition getRelayAddr :: "Multiaddr \<Rightarrow> Multiaddr option outcome" where
  "getRelayAddr addr =
     (case SplitFunc addr (\<lambda>c. Code c = P_WEBRTC) of (first, rest) \<Rightarrow>
        (case SplitFirst rest of
           Panics x \<Rightarrow> Panics x
         | Returns (_, rest') \<Rightarrow>
             (case rest' of
                None \<Rightarrow> Returns first
              | Some r \<Rightarrow>
                  (case first of
                     None \<Rightarrow> Panics ''nil pointer dereference''
                   | Some f \<Rightarrow> Returns (Some (Encapsulate f r))))))"

text \<open>The shape the specification asks of a dialable address, in its own words: the address
  contains a relay (\<open>p2p-circuit\<close>) component immediately followed by a direct-upgrade
  (\<open>webrtc\<close>) component.\<close>

fun circuitThenWebrtc :: "Multiaddr \<Rightarrow> bool" where
  "circuitThenWebrtc (c # d # cs) =
     ((Code c = P_CIRCUIT \<and> Code d = P_WEBRTC) \<or> circuitThenWebrtc (d # cs))"
| "circuitThenWebrtc _ = False"

text \<open>A negotiated address, in the words of the specification's data model: a dialable
  address whose direct-upgrade marker is its last segment (and occurs nowhere else).\<close>

definition negotiatedAddress :: "Multiaddr \<Rightarrow> bool" where
  "negotiatedAddress a =
     (CanDial a \<and> a \<noteq> [] \<and> last a = Component P_WEBRTC [] \<and>
      list_all (\<lambda>c. Code c \<noteq> P_WEBRTC) (butlast a))"

section \<open>The transport and its single listener\<close>

text \<open>Errors are values. \<open>External\<close> is an error handed back by a collaborator (host, resource
  manager, stream, WebRTC engine); \<open>Errorf\<close> is a fresh \<open>fmt.Errorf\<close> or \<open>errors.New\<close> message
  and \<open>Wrapf\<close> an \<open>fmt.Errorf\<close> that wraps its cause with \<open>%w\<close> (formatted arguments are left
  out of the text); \<open>DeadlineExceeded\<close> and \<open>Canceled\<close> are the two values of \<open>ctx.Err()\<close>.\<close>

datatype error =
    External string
  | EOF
  | DeadlineExceeded
  | Canceled
  | Errorf string
  | Wrapf string error

definition maxMsgSize :: nat where
  "maxMsgSize = 4096"

text \<open>A listener is identified by its pointer; \<open>inflightQueueCap\<close> is the capacity of its
  \<open>inflightQueue\<close> channel.\<close>

record listener =
  ptr :: nat
  inflightQueueCap :: nat

text \<open>The mutable part of the transport: the \<open>listener\<close> field guarded by \<open>mu\<close>, and the
  handler registered with the host for \<open>SignalingProtocol\<close> (the listener whose
  \<open>handleSignalingStream\<close> is installed, if any).\<close>

record transport =
  maxInFlightConnections :: nat
  registered :: "listener option"
  streamHandler :: "listener option"

text \<open>\<open>laddr.ValueForProtocol(code)\<close>: the value of the first component with that protocol
  code, an error when there is none.\<close>

fun ValueForProtocol :: "Multiaddr \<Rightarrow> int \<Rightarrow> error + string" where
  "ValueForProtocol [] code = Inl (Errorf ''protocol not found in multiaddr'')"
| "ValueForProtocol (c # cs) code = (if Code c = code then Inr (Val c) else ValueForProtocol cs code)"

text \<open>\<open>Listen\<close>; \<open>p\<close> is the address of the listener allocated by \<open>&listener{...}\<close>. The result
  is the error or the listener, and the transport afterwards.\<close>

definition Listen :: "transport \<Rightarrow> Multiaddr \<Rightarrow> nat \<Rightarrow> (error + listener) \<times> transport" where
  "Listen t laddr p =
     (case ValueForProtocol laddr P_WEBRTC of
        Inl _ \<Rightarrow> (Inl (Errorf ''invalid listen multiaddr''), t)
      | Inr _ \<Rightarrow>
          (case registered t of
             Some _ \<Rightarrow> (Inl (Errorf ''already listening on /webrtc''), t)
           | None \<Rightarrow>
               (let l = \<lparr>ptr = p, inflightQueueCap = maxInFlightConnections t\<rparr>
                in (Inr l, t\<lparr>registered := Some l, streamHandler := Some l\<rparr>))))"

definition RemoveListener :: "transport \<Rightarrow> listener \<Rightarrow> transport" where
  "RemoveListener t l =
     (if map_option ptr (registered t) = Some (ptr l)
      then t\<lparr>registered := None, streamHandler := None\<rparr> else t)"

definition Protocols :: "int list" where
  "Protocols = [P_WEBRTC]"

definition Proxy :: bool where
  "Proxy = False"

section \<open>Signaling\<close>

text \<open>\<open>pb.Message\<close>: both fields are optional on the wire.\<close>

datatype Message_Type = SDP_OFFER | SDP_ANSWER | ICE_CANDIDATE

datatype Message = Message (Type: "Message_Type option") (Data: "string option")

text \<open>\<open>webrtc.PeerConnectionState\<close>.\<close>

datatype PeerConnectionState =
    StateUnknown | StateNew | StateConnecting | StateConnected
  | StateDisconnected | StateFailed | StateClosed

text \<open>The calls on collaborators that the dialer makes, in the order it makes them. A denied
  reservation is recorded as such: it reserves nothing.\<close>

datatype call =
    Connect string "Multiaddr option"
  | OpenConnection Multiaddr
  | OpenConnectionDenied
  | SetPeer string
  | ScopeDone
  | NewStream
  | SetService
  | ReserveMemory nat
  | ReserveMemoryDenied nat
  | ReleaseMemory nat
  | SetDeadline
  | StreamReset
  | StreamClose
  | WriteMsg Message
  | ReadMsg
  | PcClose
  | PcCloseNil
  | DcClose
  | SetLocalDescription
  | SetRemoteDescription
  | AddICECandidate string
  | Cancel
  | InterceptSecured
  | ConnClose

subsection \<open>Channels of capacity one\<close>

text \<open>A buffered channel of capacity one is the value it holds, if any. \<open>trySend\<close> is the
  \<open>select { case ch <- v: default: }\<close> of the callbacks: the value is dropped when the buffer
  is full.\<close>

definition trySend :: "'a \<Rightarrow> 'a option \<Rightarrow> 'a option" where
  "trySend v ch = (case ch of None \<Rightarrow> Some v | Some u \<Rightarrow> Some u)"

text \<open>The callback registered with \<open>pc.OnConnectionStateChange\<close>, acting on the
  \<open>connectionState\<close> channel.\<close>

fun onConnectionStateChange ::
  "PeerConnectionState \<Rightarrow> PeerConnectionState option \<Rightarrow> PeerConnectionState option" where
  "onConnectionStateChange StateConnected ch = trySend StateConnected ch"
| "onConnectionStateChange StateFailed ch = trySend StateFailed ch"
| "onConnectionStateChange StateClosed ch = trySend StateClosed ch"
| "onConnectionStateChange _ ch = ch"

text \<open>One invocation of the callback registered with \<open>pc.OnICECandidate\<close>: the candidate is
  \<open>nil\<close>, or it is marshalled (\<open>json.Marshal\<close> fails or gives the text) and the text written
  to the stream (\<open>w.WriteMsg\<close> fails or not).\<close>

datatype local_candidate =
    NilCandidate
  | Candidate (marshal: "error + string") (written: "error option")

text \<open>What the reader goroutine gets from one \<open>r.ReadMsg\<close>.\<close>

datatype read_result = ReadEOF | ReadFailed error | Received Message

text \<open>The WebRTC engine as far as the reader needs it: \<open>json.Unmarshal\<close> into an
  \<open>ICECandidateInit\<close> (kept as text) and \<open>pc.AddICECandidate\<close>.\<close>

record engine =
  unmarshal :: "string \<Rightarrow> error + string"
  addICECandidate :: "string \<Rightarrow> error option"

text \<open>The state shared by the main goroutine, the callbacks and the reader during candidate
  exchange: the three signal channels, \<open>ctx.Err()\<close> (\<open>None\<close> until the context is done),
  whether the reader goroutine is still in its loop, and the calls made so far.\<close>

record race =
  connectionState :: "PeerConnectionState option"
  writeErr :: "error option"
  readErr :: "error option"
  ctxErr :: "error option"
  reading :: bool
  calls :: "call list"

definition raceStart :: race where
  "raceStart = \<lparr>connectionState = None, writeErr = None, readErr = None, ctxErr = None,
                 reading = True, calls = []\<rparr>"

definition onICECandidate :: "local_candidate \<Rightarrow> race \<Rightarrow> race" where
  "onICECandidate c st =
     (case c of
        NilCandidate \<Rightarrow> st
      | Candidate m wr \<Rightarrow>
          (case m of
             Inl e \<Rightarrow> st\<lparr>writeErr := trySend (Wrapf ''failed to marshal candidate to JSON'' e) (writeErr st)\<rparr>
           | Inr data \<Rightarrow>
               (case wr of
                  Some e \<Rightarrow>
                    st\<lparr>writeErr := trySend (Wrapf ''failed to write candidate'' e) (writeErr st),
                       calls := calls st @ [WriteMsg (Message (Some ICE_CANDIDATE) (Some data))]\<rparr>
                | None \<Rightarrow>
                    st\<lparr>calls := calls st @ [WriteMsg (Message (Some ICE_CANDIDATE) (Some data))]\<rparr>)))"

text \<open>One turn of the reader goroutine's loop, given what \<open>r.ReadMsg\<close> returns in it. The
  loop is left (\<open>reading\<close> becomes false) when the context is done, at end of stream and
  after every send on \<open>readErr\<close>; \<open>continue\<close> leaves the state as it is.\<close>

definition readerTurn :: "engine \<Rightarrow> read_result \<Rightarrow> race \<Rightarrow> race" where
  "readerTurn eng r st =
     (if ctxErr st \<noteq> None then st\<lparr>reading := False\<rparr>
      else
        (case r of
           ReadEOF \<Rightarrow> st\<lparr>reading := False, calls := calls st @ [ReadMsg]\<rparr>
         | ReadFailed e \<Rightarrow>
             st\<lparr>readErr := Some (Wrapf ''read failed'' e), reading := False,
                calls := calls st @ [ReadMsg]\<rparr>
         | Received msg \<Rightarrow>
             (if Type msg \<noteq> Some ICE_CANDIDATE then
                st\<lparr>readErr := Some (Errorf ''invalid message: expected ICE_CANDIDATE''),
                   reading := False, calls := calls st @ [ReadMsg]\<rparr>
              else
                (case Data msg of
                   None \<Rightarrow> st\<lparr>calls := calls st @ [ReadMsg]\<rparr>
                 | Some data \<Rightarrow>
                     (if data = [] then st\<lparr>calls := calls st @ [ReadMsg]\<rparr>
                      else
                        (case unmarshal eng data of
                           Inl e \<Rightarrow>
                             st\<lparr>readErr := Some (Wrapf ''failed to unmarshal ice candidate'' e),
                                reading := False, calls := calls st @ [ReadMsg]\<rparr>
                         | Inr init \<Rightarrow>
                             (case addICECandidate eng init of
                                Some e \<Rightarrow>
                                  st\<lparr>readErr := Some (Wrapf ''failed to add ice candidate'' e),
                                     reading := False,
                                     calls := calls st @ [ReadMsg, AddICECandidate init]\<rparr>
                              | None \<Rightarrow>
                                  st\<lparr>calls := calls st @ [ReadMsg, AddICECandidate init]\<rparr>)))))))"

text \<open>What can happen while the main goroutine negotiates: the engine reports a connection
  state, the engine reports a local candidate, the reader goroutine takes one turn, or the
  context is done (its deadline passes or the caller cancels).\<close>

datatype event =
    StateChange PeerConnectionState
  | LocalCandidate local_candidate
  | ReaderTurn read_result
  | ContextDone error

fun step :: "engine \<Rightarrow> race \<Rightarrow> event \<Rightarrow> race" where
  "step eng st (StateChange s) =
     st\<lparr>connectionState := onConnectionStateChange s (connectionState st)\<rparr>"
| "step eng st (LocalCandidate c) = onICECandidate c st"
| "step eng st (ReaderTurn r) = (if reading st then readerTurn eng r st else st)"
| "step eng st (ContextDone e) = st\<lparr>ctxErr := trySend e (ctxErr st)\<rparr>"

subsection \<open>The completion race\<close>

text \<open>The four cases of the \<open>select\<close> in \<open>setupConnection\<close>, in source order.\<close>

datatype signal =
    CtxDone error
  | ReadErr error
  | WriteErr error
  | ConnState PeerConnectionState

definition ready :: "race \<Rightarrow> signal list" where
  "ready st =
     (case ctxErr st of None \<Rightarrow> [] | Some e \<Rightarrow> [CtxDone e]) @
     (case readErr st of None \<Rightarrow> [] | Some e \<Rightarrow> [ReadErr e]) @
     (case writeErr st of None \<Rightarrow> [] | Some e \<Rightarrow> [WriteErr e]) @
     (case connectionState st of None \<Rightarrow> [] | Some s \<Rightarrow> [ConnState s])"

text \<open>A \<open>select\<close> with several cases ready takes one of them at random; \<open>pick\<close> is that
  choice. With no case ready it blocks.\<close>

definition selectReady :: "nat \<Rightarrow> race \<Rightarrow> signal option" where
  "selectReady pick st =
     (case ready st of [] \<Rightarrow> None | s # ss \<Rightarrow> Some ((s # ss) ! (pick mod length (s # ss))))"

text \<open>The main goroutine blocked in the \<open>select\<close>: it takes a ready case if there is one,
  otherwise the next event happens and the \<open>select\<close> is looked at again, so that the first
  signal raised is the one received. When nothing more happens the timer of
  \<open>context.WithTimeout(ctx, connectTimeout)\<close> fires, so the \<open>select\<close> always returns.\<close>

fun await :: "engine \<Rightarrow> nat \<Rightarrow> race \<Rightarrow> event list \<Rightarrow> signal \<times> race" where
  "await eng pick st [] =
     (case selectReady pick st of
        Some s \<Rightarrow> (s, st)
      | None \<Rightarrow> (CtxDone DeadlineExceeded, st\<lparr>ctxErr := Some DeadlineExceeded\<rparr>))"
| "await eng pick st (e # es) =
     (case selectReady pick st of
        Some s \<Rightarrow> (s, st)
      | None \<Rightarrow> await eng pick (step eng st e) es)"

section \<open>Dialing\<close>

text \<open>What \<open>getLocalConnectionAddress\<close> reads from the peer connection: whether the SCTP, DTLS
  and ICE transports exist, and the selected candidate pair (\<open>None\<close> when
  \<open>GetSelectedCandidatePair\<close> gives no pair or an error, otherwise what
  \<open>manet.FromNetAddr\<close> makes of the pair's local UDP address).\<close>

record PeerConnection =
  sctp :: bool
  dtls :: bool
  ice :: bool
  selectedPair :: "(error + Multiaddr) option"

definition getLocalConnectionAddress :: "PeerConnection \<Rightarrow> error + Multiaddr" where
  "getLocalConnectionAddress pc =
     (if \<not> sctp pc then Inl (Errorf ''no sctp transport'')
      else if \<not> dtls pc then Inl (Errorf ''no dtls transport'')
      else if \<not> ice pc then Inl (Errorf ''no ice transport'')
      else
        (case selectedPair pc of
           None \<Rightarrow> Inl (Errorf ''invalid candidate pair'')
         | Some (Inl e) \<Rightarrow> Inl (Wrapf ''failed to infer local address from candidate'' e)
         | Some (Inr localAddr) \<Rightarrow> Inr (Encapsulate localAddr WebRTCAddr)))"

text \<open>The connection built by \<open>libp2pwebrtc.NewWebRTCConnection\<close>; it takes over the
  connection management scope.\<close>

record CapableConn =
  localAddr :: Multiaddr
  remoteAddr :: Multiaddr

text \<open>Everything outside the transport that one dial attempt meets: the outcome of each
  call on a collaborator (\<open>None\<close> for success where only an error can come back), the events
  that happen before the main goroutine reaches the \<open>select\<close> (\<open>early\<close>) and after it blocks
  there (\<open>late\<close>; the calls of callbacks and reader are listed where the main goroutine meets
  them), and the gater (\<open>None\<close> when the transport has none, otherwise the answer of
  \<open>InterceptSecured\<close>).\<close>

record world =
  connect :: "error option"
  openConnection :: "error option"
  setPeer :: "error option"
  newStream :: "error option"
  setService :: "error option"
  reserveMemory :: "error option"
  newPeerConnection :: "error option"
  createDataChannel :: "error option"
  createOffer :: "error + string"
  writeOffer :: "error option"
  setLocalDescription :: "error option"
  readAnswer :: "error + Message"
  setRemoteDescription :: "error option"
  rtc :: engine
  early :: "event list"
  pick :: nat
  late :: "event list"
  peerConnection :: PeerConnection
  newWebRTCConnection :: "error option"
  gater :: "bool option"

text \<open>The deferred calls of \<open>setupConnection\<close> in the order they run at return: \<open>cancel\<close> once
  the context exists, \<open>dc.Close\<close> once the data channel exists, and \<open>pc.Close\<close> when the
  function returns an error.\<close>

definition deferred :: "bool \<Rightarrow> bool \<Rightarrow> bool \<Rightarrow> call list" where
  "deferred ctx dc failed =
     (if ctx then [Cancel] else []) @ (if dc then [DcClose] else []) @
     (if failed then [PcClose] else [])"

text \<open>The part of \<open>setupConnection\<close> from the \<open>select\<close> on; \<open>sofar\<close> are the calls made up
  to there.\<close>

definition finishConnection ::
  "world \<Rightarrow> Multiaddr \<Rightarrow> call list \<Rightarrow> signal \<Rightarrow> (error + CapableConn) \<times> call list" where
  "finishConnection w raddr sofar sig =
     (case sig of
        CtxDone e \<Rightarrow> (Inl e, sofar @ [PcClose] @ deferred True True True)
      | ReadErr e \<Rightarrow> (Inl e, sofar @ [PcClose] @ deferred True True True)
      | WriteErr e \<Rightarrow> (Inl e, sofar @ [PcClose] @ deferred True True True)
      | ConnState state \<Rightarrow>
          (if state \<noteq> StateConnected then
             (Inl (Errorf ''conn establishment failed''), sofar @ [PcClose] @ deferred True True True)
           else
             (case getLocalConnectionAddress (peerConnection w) of
                Inl e \<Rightarrow>
                  (Inl (Wrapf ''failed to get connection addresses'' e),
                   sofar @ [PcClose] @ deferred True True True)
              | Inr la \<Rightarrow>
                  (case newWebRTCConnection w of
                     Some e \<Rightarrow>
                       (Inl (Wrapf ''failed to create tpt.CapableConn'' e),
                        sofar @ [PcClose] @ deferred True True True)
                   | None \<Rightarrow>
                       (Inr \<lparr>localAddr = la, remoteAddr = raddr\<rparr>,
                        sofar @ deferred True True False)))))"

text \<open>\<open>setupConnection\<close>. When \<open>NewPeerConnection\<close> fails \<open>pc\<close> is \<open>nil\<close>, and the deferred
  \<open>pc.Close()\<close> that runs on the error return panics.\<close>

definition setupConnection ::
  "world \<Rightarrow> Multiaddr \<Rightarrow> (error + CapableConn) outcome \<times> call list" where
  "setupConnection w raddr =
     (case newPeerConnection w of
        Some e \<Rightarrow> (Panics ''nil pointer dereference'', [PcCloseNil])
      | None \<Rightarrow>
     (case createDataChannel w of
        Some e \<Rightarrow>
          (Returns (Inl (Wrapf ''failed to create data channel'' e)), deferred False False True)
      | None \<Rightarrow>
     (case createOffer w of
        Inl e \<Rightarrow> (Returns (Inl (Wrapf ''failed to create offer'' e)), deferred False True True)
      | Inr sdp \<Rightarrow>
     (let offer = WriteMsg (Message (Some SDP_OFFER) (Some sdp)) in
     (case writeOffer w of
        Some e \<Rightarrow>
          (Returns (Inl (Wrapf ''failed to write to stream'' e)),
           [offer] @ deferred False True True)
      | None \<Rightarrow>
     (case setLocalDescription w of
        Some e \<Rightarrow>
          (Returns (Inl (Wrapf ''failed to set local description'' e)),
           [offer, SetLocalDescription] @ deferred False True True)
      | None \<Rightarrow>
     (case readAnswer w of
        Inl e \<Rightarrow>
          (Returns (Inl (Wrapf ''failed to read from stream'' e)),
           [offer, SetLocalDescription, ReadMsg] @ deferred False True True)
      | Inr msg \<Rightarrow>
          (if Type msg \<noteq> Some SDP_ANSWER then
             (Returns (Inl (Errorf ''invalid message: expected SDP_ANSWER'')),
              [offer, SetLocalDescription, ReadMsg] @ deferred False True True)
           else if Data msg = None \<or> Data msg = Some [] then
             (Returns (Inl (Errorf ''invalid message: empty answer'')),
              [offer, SetLocalDescription, ReadMsg] @ deferred False True True)
           else
             (case setRemoteDescription w of
                Some e \<Rightarrow>
                  (Returns (Inl (Wrapf ''failed to set remote description'' e)),
                   [offer, SetLocalDescription, ReadMsg, SetRemoteDescription] @
                   deferred False True True)
              | None \<Rightarrow>
                  (case await (rtc w) (pick w)
                          (foldl (step (rtc w)) raceStart (early w)) (late w) of
                     (sig, st) \<Rightarrow>
                       (case finishConnection w raddr
                               ([offer, SetLocalDescription, ReadMsg, SetRemoteDescription] @
                                calls st) sig of
                          (res, cs) \<Rightarrow> (Returns res, cs))))))))))))"

text \<open>\<open>dialWithScope\<close>. When \<open>setupConnection\<close> panics, the two deferred calls run while the
  panic unwinds; the \<open>s.Reset()\<close> of the error branch is not reached.\<close>

definition dialWithScope ::
  "world \<Rightarrow> string \<Rightarrow> Multiaddr \<Rightarrow> (error + CapableConn) outcome \<times> call list" where
  "dialWithScope w p raddr =
     (case newStream w of
        Some e \<Rightarrow>
          (Returns (Inl (Wrapf ''error opening stream /webrtc-signaling'' e)), [NewStream])
      | None \<Rightarrow>
     (case setService w of
        Some e \<Rightarrow>
          (Returns (Inl (Wrapf ''error attaching signaling stream to webrtcprivate transport'' e)),
           [NewStream, SetService, StreamReset])
      | None \<Rightarrow>
     (case reserveMemory w of
        Some e \<Rightarrow>
          (Returns (Inl (Wrapf ''error reserving memory for signaling stream'' e)),
           [NewStream, SetService, ReserveMemoryDenied (2 * maxMsgSize), StreamReset])
      | None \<Rightarrow>
     (let sofar = [NewStream, SetService, ReserveMemory (2 * maxMsgSize), SetDeadline] in
     (case setupConnection w raddr of
        (Panics x, cs) \<Rightarrow>
          (Panics x, sofar @ cs @ [StreamClose, ReleaseMemory maxMsgSize])
      | (Returns (Inl e), cs) \<Rightarrow>
          (Returns (Inl (Wrapf ''error establishing webrtc.PeerConnection'' e)),
           sofar @ cs @ [StreamReset] @ [StreamClose, ReleaseMemory maxMsgSize])
      | (Returns (Inr conn), cs) \<Rightarrow>
          (case gater w of
             None \<Rightarrow> (Returns (Inr conn), sofar @ cs @ [StreamClose, ReleaseMemory maxMsgSize])
           | Some allowed \<Rightarrow>
               (if \<not> allowed then
                  (Returns (Inl (Errorf ''conn gater refused connection to addr'')),
                   sofar @ cs @ [InterceptSecured, ConnClose, StreamReset] @
                   [StreamClose, ReleaseMemory maxMsgSize])
                else
                  (Returns (Inr conn),
                   sofar @ cs @ [InterceptSecured] @
                   [StreamClose, ReleaseMemory maxMsgSize]))))))))"

text \<open>\<open>Dial\<close>. It has no deferred calls: a panic of \<open>getRelayAddr\<close> or of \<open>dialWithScope\<close>
  passes through it.\<close>

definition Dial ::
  "world \<Rightarrow> Multiaddr \<Rightarrow> string \<Rightarrow> (error + CapableConn) outcome \<times> call list" where
  "Dial w raddr p =
     (case getRelayAddr raddr of
        Panics x \<Rightarrow> (Panics x, [])
      | Returns relayAddr \<Rightarrow>
     (case connect w of
        Some e \<Rightarrow>
          (Returns (Inl (Wrapf ''failed to open /webrtc-signaling stream'' e)),
           [Connect p relayAddr])
      | None \<Rightarrow>
     (case openConnection w of
        Some e \<Rightarrow> (Returns (Inl e), [Connect p relayAddr, OpenConnectionDenied])
      | None \<Rightarrow>
     (case setPeer w of
        Some e \<Rightarrow> (Returns (Inl e), [Connect p relayAddr, OpenConnection raddr, SetPeer p])
      | None \<Rightarrow>
     (case dialWithScope w p raddr of
        (Panics x, cs) \<Rightarrow>
          (Panics x, [Connect p relayAddr, OpenConnection raddr, SetPeer p] @ cs)
      | (Returns (Inl e), cs) \<Rightarrow>
          (Returns (Inl e),
           [Connect p relayAddr, OpenConnection raddr, SetPeer p] @ cs @ [ScopeDone])
      | (Returns (Inr c), cs) \<Rightarrow>
          (Returns (Inr c), [Connect p relayAddr, OpenConnection raddr, SetPeer p] @ cs))))))"

subsection \<open>Reading a list of calls\<close>

text \<open>The signaling memory still reserved after the calls.\<close>

fun reservedMemory :: "call list \<Rightarrow> int" where
  "reservedMemory [] = 0"
| "reservedMemory (ReserveMemory n # cs) = reservedMemory cs + int n"
| "reservedMemory (ReleaseMemory n # cs) = reservedMemory cs - int n"
| "reservedMemory (_ # cs) = reservedMemory cs"

text \<open>The state of the signaling stream after the calls. \<open>Reset\<close> aborts an open stream
  and \<open>Close\<close> ends it gracefully; on a stream already torn down neither does anything.\<close>

datatype stream_state = StreamOpen | StreamAborted | StreamClosedGracefully

fun streamAfter :: "stream_state \<Rightarrow> call list \<Rightarrow> stream_state" where
  "streamAfter s [] = s"
| "streamAfter StreamOpen (StreamReset # cs) = streamAfter StreamAborted cs"
| "streamAfter StreamOpen (StreamClose # cs) = streamAfter StreamClosedGracefully cs"
| "streamAfter s (_ # cs) = streamAfter s cs"

text \<open>Wire I/O on the signaling stream.\<close>

fun wireIO :: "call \<Rightarrow> bool" where
  "wireIO (WriteMsg _) = True"
| "wireIO ReadMsg = True"
| "wireIO _ = False"

text \<open>A dial attempt in which every collaborator succeeds: the peer answers the offer, one
  empty and one real candidate arrive, and the engine reports \<open>connected\<close>.\<close>

definition smoothWorld :: world where
  "smoothWorld =
     \<lparr>connect = None, openConnection = None, setPeer = None, newStream = None,
      setService = None, reserveMemory = None, newPeerConnection = None,
      createDataChannel = None, createOffer = Inr ''v=0 offer'', writeOffer = None,
      setLocalDescription = None,
      readAnswer = Inr (Message (Some SDP_ANSWER) (Some ''v=0 answer'')),
      setRemoteDescription = None,
      rtc = \<lparr>unmarshal = (\<lambda>s. Inr s), addICECandidate = (\<lambda>s. None)\<rparr>,
      early = [StateChange StateNew, LocalCandidate (Candidate (Inr ''cand-a'') None)],
      pick = 0,
      late = [ReaderTurn (Received (Message (Some ICE_CANDIDATE) (Some []))),
              StateChange StateConnecting,
              ReaderTurn (Received (Message (Some ICE_CANDIDATE) (Some ''cand-b''))),
              StateChange StateConnected],
      peerConnection = \<lparr>sctp = True, dtls = True, ice = True,
                        selectedPair = Some (Inr [Component P_IP4 ''192.0.2.1''])\<rparr>,
      newWebRTCConnection = None, gater = None\<rparr>"

definition dialAddr :: Multiaddr where
  "dialAddr = [Component P_P2P ''QmRelay'', Component P_CIRCUIT [], Component P_WEBRTC []]"

subsection \<open>Notions used in the properties\<close>

text \<open>The connection states that the state-change callback forwards.\<close>

definition terminalState :: "PeerConnectionState \<Rightarrow> bool" where
  "terminalState s = (s = StateConnected \<or> s = StateFailed \<or> s = StateClosed)"

text \<open>The \<open>connectionState\<close> channel is empty or holds a forwarded state.\<close>

definition terminalOrEmpty :: "race \<Rightarrow> bool" where
  "terminalOrEmpty st = (case connectionState st of None \<Rightarrow> True | Some s \<Rightarrow> terminalState s)"

text \<open>Two states of the race that differ at most in the calls recorded so far.\<close>

definition sameSignals :: "race \<Rightarrow> race \<Rightarrow> bool" where
  "sameSignals a b =
     (connectionState a = connectionState b \<and> writeErr a = writeErr b \<and>
      readErr a = readErr b \<and> ctxErr a = ctxErr b \<and> reading a = reading b)"

text \<open>The offerer has sent its offer and set it as local description (state \<open>OfferSent\<close> of
  the specification).\<close>

definition offerSent :: "world \<Rightarrow> bool" where
  "offerSent w =
     (newPeerConnection w = None \<and> createDataChannel w = None \<and>
      (case createOffer w of Inl _ \<Rightarrow> False | Inr _ \<Rightarrow> True) \<and>
      writeOffer w = None \<and> setLocalDescription w = None)"

text \<open>The offer was sent, a well-formed answer came back and was applied as remote
  description (state \<open>AnswerExchanged\<close>): the dialer enters candidate exchange.\<close>

definition answerExchanged :: "world \<Rightarrow> bool" where
  "answerExchanged w =
     (offerSent w \<and>
      (case readAnswer w of
         Inl _ \<Rightarrow> False
       | Inr msg \<Rightarrow> Type msg = Some SDP_ANSWER \<and> Data msg \<noteq> None \<and> Data msg \<noteq> Some []) \<and>
      setRemoteDescription w = None)"

text \<open>The calls that \<open>setupConnection\<close>, its callbacks and its reader make: they touch the
  peer connection and the wire, never the scopes or the lifetime of the stream.\<close>

fun negotiationCall :: "call \<Rightarrow> bool" where
  "negotiationCall (WriteMsg _) = True"
| "negotiationCall ReadMsg = True"
| "negotiationCall (AddICECandidate _) = True"
| "negotiationCall SetLocalDescription = True"
| "negotiationCall SetRemoteDescription = True"
| "negotiationCall PcClose = True"
| "negotiationCall PcCloseNil = True"
| "negotiationCall DcClose = True"
| "negotiationCall Cancel = True"
| "negotiationCall _ = False"

text \<open>A dial attempt in which the negotiation deadline passes while the engine is still
  connecting.\<close>

definition slowWorld :: world where
  "slowWorld = smoothWorld\<lparr>late := [StateChange StateConnecting, ContextDone DeadlineExceeded,
                                     StateChange StateConnected]\<rparr>"

text \<open>A dial attempt in which the peer replies to the offer with a candidate instead of an
  answer.\<close>

definition rudeWorld :: world where
  "rudeWorld = smoothWorld\<lparr>readAnswer := Inr (Message (Some ICE_CANDIDATE) (Some ''cand-x''))\<rparr>"

text \<open>A dial attempt in which the caller's deadline passes and the engine reports
  \<open>connected\<close> before the main goroutine reaches the \<open>select\<close>, which then takes the
  connection state.\<close>

definition racyWorld :: world where
  "racyWorld = smoothWorld\<lparr>early := [ContextDone DeadlineExceeded, StateChange StateConnected],
                          pick := 1, late := []\<rparr>"

text \<open>A dial attempt in which the engine reports \<open>failed\<close> before the deadline passes.\<close>

definition failedWorld :: world where
  "failedWorld = smoothWorld\<lparr>late := [StateChange StateFailed, ContextDone DeadlineExceeded]\<rparr>"

text \<open>A dial attempt in which the caller's deadline passes before the main goroutine reaches
  the \<open>select\<close> and nothing else has happened by then.\<close>

definition expiredWorld :: world where
  "expiredWorld = smoothWorld\<lparr>early := [StateChange StateNew, ContextDone DeadlineExceeded]\<rparr>"

section \<open>Properties of the address functions\<close>

lemma splitWhen_no_match:
  "\<forall>c\<in>set a. \<not> cb c \<Longrightarrow> splitWhen a cb = (a, [])"
  by (induction a) auto

lemma splitWhen_first_match:
  "\<forall>c\<in>set pre. \<not> cb c \<Longrightarrow> cb w \<Longrightarrow> splitWhen (pre @ w # post) cb = (pre, w # post)"
  by (induction pre) auto

lemma SplitFirst_Cons:
  "SplitFirst (Some (c # cs)) = Returns (Some c, if cs = [] then None else Some cs)"
  by (cases cs) simp_all

lemma getRelayAddr_no_webrtc:
  "\<forall>c\<in>set a. Code c \<noteq> P_WEBRTC \<Longrightarrow> getRelayAddr a = Panics ''nil pointer dereference''"
  by (simp add: getRelayAddr_def SplitFunc_def splitWhen_no_match)

lemma getRelayAddr_leading_webrtc:
  "Code w = P_WEBRTC \<Longrightarrow> post \<noteq> [] \<Longrightarrow>
   getRelayAddr (w # post) = Panics ''nil pointer dereference''"
  by (simp add: getRelayAddr_def SplitFunc_def SplitFirst_Cons)


lemma getRelayAddr_first_webrtc:
  assumes "pre \<noteq> []" and "\<forall>c\<in>set pre. Code c \<noteq> P_WEBRTC" and "Code w = P_WEBRTC"
  shows "getRelayAddr (pre @ w # post) = Returns (Some (pre @ post))"
proof -
  have "splitWhen (pre @ w # post) (\<lambda>c. Code c = P_WEBRTC) = (pre, w # post)"
    using assms(2,3) by (intro splitWhen_first_match) auto
  with assms(1) show ?thesis
    by (simp add: getRelayAddr_def SplitFunc_def SplitFirst_Cons Encapsulate_def)
qed




lemma canDialVisit_pair:
  "canDialVisit c (circuit, webrtc) =
     (if Code c = P_CIRCUIT then (True, (True, webrtc))
      else if circuit then (False, (circuit, Code c = P_WEBRTC))
      else (True, (circuit, webrtc)))"
  by (simp add: canDialVisit_def)

lemma codes_differ: "P_WEBRTC \<noteq> P_CIRCUIT"
  by (simp add: P_WEBRTC_def P_CIRCUIT_def)

lemma ForEach_skip_prefix:
  "\<forall>c\<in>set pre. Code c \<noteq> P_CIRCUIT \<Longrightarrow>
   ForEach (pre @ rest) canDialVisit (False, x) = ForEach rest canDialVisit (False, x)"
  by (induction pre) (simp_all add: canDialVisit_pair)

lemma ForEach_relay_run:
  "\<forall>c\<in>set cs. Code c = P_CIRCUIT \<Longrightarrow> Code w = P_WEBRTC \<Longrightarrow>
   ForEach (cs @ w # post) canDialVisit (True, x) = (True, True)"
  by (induction cs) (simp_all add: canDialVisit_pair codes_differ)

lemma CanDial_ForEach: "CanDial a \<longleftrightarrow> ForEach a canDialVisit (False, False) = (True, True)"
  by (cases "ForEach a canDialVisit (False, False)") (simp add: CanDial_def)

lemma CanDial_shape:
  assumes "\<forall>c\<in>set pre. Code c \<noteq> P_CIRCUIT" "cs \<noteq> []" "\<forall>c\<in>set cs. Code c = P_CIRCUIT"
    "Code w = P_WEBRTC"
  shows "CanDial (pre @ cs @ [w] @ post)"
proof -
  from assms(2) obtain c cs' where cs: "cs = c # cs'" by (cases cs) auto
  with assms(3) have c: "Code c = P_CIRCUIT" and cs': "\<forall>c\<in>set cs'. Code c = P_CIRCUIT" by simp_all
  have "ForEach (pre @ (c # cs' @ w # post)) canDialVisit (False, False)
          = ForEach (c # cs' @ w # post) canDialVisit (False, False)"
    using assms(1) by (rule ForEach_skip_prefix)
  also have "\<dots> = ForEach (cs' @ w # post) canDialVisit (True, False)"
    using c by (simp add: canDialVisit_pair)
  also have "\<dots> = (True, True)"
    using cs' assms(4) by (rule ForEach_relay_run)
  finally show ?thesis by (simp add: CanDial_ForEach cs)
qed

lemma ForEach_seen_decompose:
  "ForEach a canDialVisit (True, False) = (True, True) \<Longrightarrow>
   \<exists>cs w post. a = cs @ [w] @ post \<and> (\<forall>c\<in>set cs. Code c = P_CIRCUIT) \<and> Code w = P_WEBRTC"
proof (induction a)
  case Nil
  then show ?case by simp
next
  case (Cons c a)
  show ?case
  proof (cases "Code c = P_CIRCUIT")
    case True
    with Cons.prems have "ForEach a canDialVisit (True, False) = (True, True)"
      by (simp add: canDialVisit_pair)
    then obtain cs w post where "a = cs @ [w] @ post" "\<forall>c\<in>set cs. Code c = P_CIRCUIT"
      "Code w = P_WEBRTC" using Cons.IH by blast
    with True have "c # a = (c # cs) @ [w] @ post \<and> (\<forall>c\<in>set (c # cs). Code c = P_CIRCUIT) \<and>
      Code w = P_WEBRTC" by simp
    then show ?thesis by blast
  next
    case False
    with Cons.prems have "Code c = P_WEBRTC" by (simp add: canDialVisit_pair)
    then have "c # a = [] @ [c] @ a \<and> (\<forall>c\<in>set []. Code c = P_CIRCUIT) \<and> Code c = P_WEBRTC"
      by simp
    then show ?thesis by blast
  qed
qed

lemma ForEach_unseen_decompose:
  "ForEach a canDialVisit (False, False) = (True, True) \<Longrightarrow>
   \<exists>pre cs w post. a = pre @ cs @ [w] @ post \<and> (\<forall>c\<in>set pre. Code c \<noteq> P_CIRCUIT) \<and>
      cs \<noteq> [] \<and> (\<forall>c\<in>set cs. Code c = P_CIRCUIT) \<and> Code w = P_WEBRTC"
proof (induction a)
  case Nil
  then show ?case by simp
next
  case (Cons c a)
  show ?case
  proof (cases "Code c = P_CIRCUIT")
    case True
    with Cons.prems have "ForEach a canDialVisit (True, False) = (True, True)"
      by (simp add: canDialVisit_pair)
    then obtain cs w post where "a = cs @ [w] @ post" "\<forall>c\<in>set cs. Code c = P_CIRCUIT"
      "Code w = P_WEBRTC" using ForEach_seen_decompose by blast
    with True have "c # a = [] @ (c # cs) @ [w] @ post \<and> (\<forall>c\<in>set []. Code c \<noteq> P_CIRCUIT) \<and>
      c # cs \<noteq> [] \<and> (\<forall>c\<in>set (c # cs). Code c = P_CIRCUIT) \<and> Code w = P_WEBRTC" by simp
    then show ?thesis by blast
  next
    case False
    with Cons.prems have "ForEach a canDialVisit (False, False) = (True, True)"
      by (simp add: canDialVisit_pair)
    then obtain pre cs w post where "a = pre @ cs @ [w] @ post"
      "\<forall>c\<in>set pre. Code c \<noteq> P_CIRCUIT" "cs \<noteq> []" "\<forall>c\<in>set cs. Code c = P_CIRCUIT"
      "Code w = P_WEBRTC" using Cons.IH by blast
    with False have "c # a = (c # pre) @ cs @ [w] @ post \<and>
      (\<forall>c\<in>set (c # pre). Code c \<noteq> P_CIRCUIT) \<and>
      cs \<noteq> [] \<and> (\<forall>c\<in>set cs. Code c = P_CIRCUIT) \<and> Code w = P_WEBRTC" by simp
    then show ?thesis by blast
  qed
qed

lemma circuitThenWebrtc_append:
  "Code c = P_CIRCUIT \<Longrightarrow> Code w = P_WEBRTC \<Longrightarrow> circuitThenWebrtc (pre @ c # w # post)"
  by (induction pre rule: circuitThenWebrtc.induct) auto

lemma CanDial_decompose:
  assumes "CanDial a"
  shows "\<exists>pre cs w post. a = pre @ cs @ [w] @ post \<and> (\<forall>c\<in>set pre. Code c \<noteq> P_CIRCUIT) \<and>
      cs \<noteq> [] \<and> (\<forall>c\<in>set cs. Code c = P_CIRCUIT) \<and> Code w = P_WEBRTC"
proof -
  from assms have "ForEach a canDialVisit (False, False) = (True, True)"
    by (simp add: CanDial_ForEach)
  then show ?thesis by (rule ForEach_unseen_decompose)
qed

lemma CanDial_adjacent:
  assumes "CanDial a"
  shows "circuitThenWebrtc a"
proof -
  from CanDial_decompose [OF assms] obtain pre cs w post where a: "a = pre @ cs @ [w] @ post" and
    cs: "cs \<noteq> []" "\<forall>c\<in>set cs. Code c = P_CIRCUIT" and w: "Code w = P_WEBRTC"
    by auto
  from cs(1) obtain cs' c where cs': "cs = cs' @ [c]"
    by (cases cs rule: rev_cases) auto
  with cs(2) have c: "Code c = P_CIRCUIT" by simp
  have "circuitThenWebrtc ((pre @ cs') @ c # w # post)"
    using c w by (rule circuitThenWebrtc_append)
  moreover have "a = (pre @ cs') @ c # w # post" unfolding a cs' by simp
  ultimately show ?thesis by (simp only:)
qed

text \<open>
  Claim C3, as stated: \<open>CanDial\<close> is true exactly for the addresses that contain a relay
  component immediately followed by a \<open>webrtc\<close> component. The walk stops at the first
  component that follows the first relay component, so a relay component further along the
  address is never looked at: the address below contains \<open>p2p-circuit/webrtc\<close> and is
  refused.
\<close>

theorem CanDial_iff_circuitThenWebrtc_counterexample:
  "\<not> (CanDial [Component P_CIRCUIT [], Component P_P2P ''QmB'', Component P_CIRCUIT [], Component P_WEBRTC []] \<longleftrightarrow>
      circuitThenWebrtc [Component P_CIRCUIT [], Component P_P2P ''QmB'', Component P_CIRCUIT [], Component P_WEBRTC []])"
  by (simp add: CanDial_def canDialVisit_pair P_CIRCUIT_def P_WEBRTC_def P_P2P_def)

text \<open>
  Claim C3, amended. \<open>CanDial\<close> is a pure function of the address (it reads nothing else and
  changes nothing). It is true exactly when the first relay component of the address,
  together with any relay components directly repeated after it, is immediately followed by
  a \<open>webrtc\<close> component; whenever it is true, the address contains a relay component
  immediately followed by a \<open>webrtc\<close> component.
\<close>

theorem CanDial_first_relay_run:
  "(CanDial a \<longleftrightarrow>
      (\<exists>pre cs w post. a = pre @ cs @ [w] @ post \<and> (\<forall>c\<in>set pre. Code c \<noteq> P_CIRCUIT) \<and>
         cs \<noteq> [] \<and> (\<forall>c\<in>set cs. Code c = P_CIRCUIT) \<and> Code w = P_WEBRTC)) \<and>
   (CanDial a \<longrightarrow> circuitThenWebrtc a)"
proof (intro conjI iffI impI)
  assume "CanDial a"
  then show "\<exists>pre cs w post. a = pre @ cs @ [w] @ post \<and> (\<forall>c\<in>set pre. Code c \<noteq> P_CIRCUIT) \<and>
         cs \<noteq> [] \<and> (\<forall>c\<in>set cs. Code c = P_CIRCUIT) \<and> Code w = P_WEBRTC"
    by (rule CanDial_decompose)
next
  assume "\<exists>pre cs w post. a = pre @ cs @ [w] @ post \<and> (\<forall>c\<in>set pre. Code c \<noteq> P_CIRCUIT) \<and>
         cs \<noteq> [] \<and> (\<forall>c\<in>set cs. Code c = P_CIRCUIT) \<and> Code w = P_WEBRTC"
  then obtain pre cs w post where "a = pre @ cs @ [w] @ post"
    "\<forall>c\<in>set pre. Code c \<noteq> P_CIRCUIT" "cs \<noteq> []" "\<forall>c\<in>set cs. Code c = P_CIRCUIT"
    "Code w = P_WEBRTC" by auto
  then show "CanDial a" using CanDial_shape [of pre cs w post] by simp
next
  assume "CanDial a"
  then show "circuitThenWebrtc a" by (rule CanDial_adjacent)
qed

theorem CanDial_first_relay_run_witness:
  "CanDial [Component P_P2P ''QmR'', Component P_CIRCUIT [], Component P_WEBRTC []] \<and>
   circuitThenWebrtc [Component P_P2P ''QmR'', Component P_CIRCUIT [], Component P_WEBRTC []]"
proof -
  have "[Component P_P2P ''QmR'', Component P_CIRCUIT [], Component P_WEBRTC []] =
          [Component P_P2P ''QmR''] @ [Component P_CIRCUIT []] @ [Component P_WEBRTC []] @ [] \<and>
        (\<forall>c\<in>set [Component P_P2P ''QmR'']. Code c \<noteq> P_CIRCUIT) \<and>
        [Component P_CIRCUIT []] \<noteq> [] \<and>
        (\<forall>c\<in>set [Component P_CIRCUIT []]. Code c = P_CIRCUIT) \<and>
        Code (Component P_WEBRTC []) = P_WEBRTC"
    by (simp add: P_P2P_def P_CIRCUIT_def)
  then have "\<exists>pre cs w post.
      [Component P_P2P ''QmR'', Component P_CIRCUIT [], Component P_WEBRTC []] = pre @ cs @ [w] @ post \<and>
      (\<forall>c\<in>set pre. Code c \<noteq> P_CIRCUIT) \<and> cs \<noteq> [] \<and> (\<forall>c\<in>set cs. Code c = P_CIRCUIT) \<and>
      Code w = P_WEBRTC"
    by (intro exI)
  then show ?thesis
    using CanDial_first_relay_run [of "[Component P_P2P ''QmR'', Component P_CIRCUIT [], Component P_WEBRTC []]"]
    by (simp only:)
qed

text \<open>
  Claim C4. For a negotiated address \<open>a\<close> (dialable, with the direct-upgrade marker as its
  last segment), \<open>getRelayAddr a\<close> returns an address, and encapsulating that address with
  \<open>/webrtc\<close> gives back \<open>a\<close> itself, which is in particular the same address for dialing.
\<close>

theorem getRelayAddr_roundtrip:
  assumes "negotiatedAddress a"
  shows "\<exists>r. getRelayAddr a = Returns (Some r) \<and> Encapsulate r WebRTCAddr = a"
proof -
  from assms have ne: "a \<noteq> []" and l: "last a = Component P_WEBRTC []"
    and b: "\<forall>c\<in>set (butlast a). Code c \<noteq> P_WEBRTC" and d: "CanDial a"
    by (auto simp: negotiatedAddress_def list_all_iff)
  have a: "butlast a @ [Component P_WEBRTC []] = a"
    using append_butlast_last_id [OF ne] l by simp
  from CanDial_decompose [OF d] obtain pre cs w post where
    "a = pre @ cs @ [w] @ post" "cs \<noteq> []" by auto
  then have "2 \<le> length a" by (cases cs) auto
  then have nb: "butlast a \<noteq> []" by (cases a rule: rev_cases) auto
  have "getRelayAddr (butlast a @ Component P_WEBRTC [] # []) = Returns (Some (butlast a @ []))"
    using nb b by (intro getRelayAddr_first_webrtc) auto
  then have "getRelayAddr a = Returns (Some (butlast a))" using a by simp
  moreover have "Encapsulate (butlast a) WebRTCAddr = a"
    using a by (simp add: Encapsulate_def WebRTCAddr_def)
  ultimately show ?thesis by blast
qed

theorem getRelayAddr_roundtrip_witness:
  "negotiatedAddress [Component P_P2P ''QmR'', Component P_CIRCUIT [], Component P_WEBRTC []] \<and>
   (\<exists>r. getRelayAddr [Component P_P2P ''QmR'', Component P_CIRCUIT [], Component P_WEBRTC []]
          = Returns (Some r) \<and>
        Encapsulate r WebRTCAddr
          = [Component P_P2P ''QmR'', Component P_CIRCUIT [], Component P_WEBRTC []])"
proof -
  have n: "negotiatedAddress [Component P_P2P ''QmR'', Component P_CIRCUIT [], Component P_WEBRTC []]"
    by (simp add: negotiatedAddress_def CanDial_def canDialVisit_pair P_CIRCUIT_def P_WEBRTC_def
        P_P2P_def)
  from n getRelayAddr_roundtrip [OF n] show ?thesis by (simp only: simp_thms)
qed

text \<open>The marker has to be the last segment: a dialable address with a component after the
  marker comes back with the marker moved to the end, and is then no longer dialable.\<close>

lemma getRelayAddr_roundtrip_needs_marker_last:
  "CanDial [Component P_CIRCUIT [], Component P_WEBRTC [], Component P_P2P ''QmB''] \<and>
   getRelayAddr [Component P_CIRCUIT [], Component P_WEBRTC [], Component P_P2P ''QmB'']
     = Returns (Some [Component P_CIRCUIT [], Component P_P2P ''QmB'']) \<and>
   \<not> CanDial (Encapsulate [Component P_CIRCUIT [], Component P_P2P ''QmB''] WebRTCAddr)"
  by (simp add: CanDial_def canDialVisit_pair getRelayAddr_def SplitFunc_def Encapsulate_def
      WebRTCAddr_def P_CIRCUIT_def P_WEBRTC_def P_P2P_def)

section \<open>Properties of the listener registration\<close>

lemma ValueForProtocol_found:
  "(\<exists>v. ValueForProtocol a code = Inr v) \<longleftrightarrow> (\<exists>c\<in>set a. Code c = code)"
  by (induction a) auto

lemma ValueForProtocol_missing:
  "(\<exists>e. ValueForProtocol a code = Inl e) \<longleftrightarrow> (\<forall>c\<in>set a. Code c \<noteq> code)"
  by (induction a) auto

text \<open>
  Claim C8, as stated, promises that \<open>Listen\<close> installs the listener whenever none is
  registered. \<open>Listen\<close> first checks that the listen address has a \<open>/webrtc\<close> component; on
  a fresh transport and the address \<open>/ip4/127.0.0.1\<close> it returns an error and registers
  nothing.
\<close>

theorem Listen_without_listener_counterexample:
  "\<not> (registered \<lparr>maxInFlightConnections = 16, registered = None, streamHandler = None\<rparr> = None
      \<longrightarrow> registered (snd (Listen \<lparr>maxInFlightConnections = 16, registered = None,
                                     streamHandler = None\<rparr>
                                   [Component P_IP4 ''127.0.0.1''] 1)) \<noteq> None)"
  by (simp add: Listen_def P_IP4_def P_WEBRTC_def)

text \<open>
  Claim C8, amended. The transport holds at most one listener. When a listener is
  registered, \<open>Listen\<close> returns an error and leaves the transport (registered listener and
  stream handler) unchanged. When none is registered and the listen address has a
  \<open>/webrtc\<close> component, \<open>Listen\<close> returns the new listener and installs it both as the
  registered listener and as the signaling stream handler. When none is registered and the
  address has no \<open>/webrtc\<close> component, \<open>Listen\<close> returns an error and changes nothing.
\<close>

theorem Listen_single_listener:
  "(registered t \<noteq> None \<longrightarrow>
      (\<exists>e. fst (Listen t laddr p) = Inl e) \<and> snd (Listen t laddr p) = t) \<and>
   (registered t = None \<and> (\<exists>c\<in>set laddr. Code c = P_WEBRTC) \<longrightarrow>
      Listen t laddr p =
        (Inr \<lparr>ptr = p, inflightQueueCap = maxInFlightConnections t\<rparr>,
         t\<lparr>registered := Some \<lparr>ptr = p, inflightQueueCap = maxInFlightConnections t\<rparr>,
           streamHandler := Some \<lparr>ptr = p, inflightQueueCap = maxInFlightConnections t\<rparr>\<rparr>)) \<and>
   (registered t = None \<and> (\<forall>c\<in>set laddr. Code c \<noteq> P_WEBRTC) \<longrightarrow>
      (\<exists>e. fst (Listen t laddr p) = Inl e) \<and> snd (Listen t laddr p) = t)"
proof -
  have busy: "(\<exists>e. fst (Listen t laddr p) = Inl e) \<and> snd (Listen t laddr p) = t"
    if "registered t \<noteq> None"
    using that by (auto simp: Listen_def split: sum.splits option.splits)
  have install: "Listen t laddr p =
        (Inr \<lparr>ptr = p, inflightQueueCap = maxInFlightConnections t\<rparr>,
         t\<lparr>registered := Some \<lparr>ptr = p, inflightQueueCap = maxInFlightConnections t\<rparr>,
           streamHandler := Some \<lparr>ptr = p, inflightQueueCap = maxInFlightConnections t\<rparr>\<rparr>)"
    if "registered t = None \<and> (\<exists>c\<in>set laddr. Code c = P_WEBRTC)"
  proof -
    from that have r: "registered t = None" and "\<exists>v. ValueForProtocol laddr P_WEBRTC = Inr v"
      by (simp_all add: ValueForProtocol_found)
    then obtain v where "ValueForProtocol laddr P_WEBRTC = Inr v" by blast
    with r show ?thesis by (simp add: Listen_def Let_def)
  qed
  have invalid: "(\<exists>e. fst (Listen t laddr p) = Inl e) \<and> snd (Listen t laddr p) = t"
    if "registered t = None \<and> (\<forall>c\<in>set laddr. Code c \<noteq> P_WEBRTC)"
  proof -
    from that have "\<exists>e. ValueForProtocol laddr P_WEBRTC = Inl e"
      by (simp add: ValueForProtocol_missing)
    then obtain e where "ValueForProtocol laddr P_WEBRTC = Inl e" by blast
    then show ?thesis by (simp add: Listen_def)
  qed
  from busy install invalid show ?thesis by blast
qed

theorem Listen_single_listener_witness:
  "(\<exists>e. fst (Listen \<lparr>maxInFlightConnections = 16,
                      registered = Some \<lparr>ptr = 1, inflightQueueCap = 16\<rparr>,
                      streamHandler = Some \<lparr>ptr = 1, inflightQueueCap = 16\<rparr>\<rparr>
                 [Component P_WEBRTC []] 2) = Inl e) \<and>
   snd (Listen \<lparr>maxInFlightConnections = 16,
                registered = Some \<lparr>ptr = 1, inflightQueueCap = 16\<rparr>,
                streamHandler = Some \<lparr>ptr = 1, inflightQueueCap = 16\<rparr>\<rparr>
           [Component P_WEBRTC []] 2)
     = \<lparr>maxInFlightConnections = 16,
        registered = Some \<lparr>ptr = 1, inflightQueueCap = 16\<rparr>,
        streamHandler = Some \<lparr>ptr = 1, inflightQueueCap = 16\<rparr>\<rparr> \<and>
   Listen \<lparr>maxInFlightConnections = 16, registered = None, streamHandler = None\<rparr>
       [Component P_WEBRTC []] 2
     = (Inr \<lparr>ptr = 2, inflightQueueCap = 16\<rparr>,
        \<lparr>maxInFlightConnections = 16,
         registered = Some \<lparr>ptr = 2, inflightQueueCap = 16\<rparr>,
         streamHandler = Some \<lparr>ptr = 2, inflightQueueCap = 16\<rparr>\<rparr>) \<and>
   (\<exists>e. fst (Listen \<lparr>maxInFlightConnections = 16, registered = None, streamHandler = None\<rparr>
                 [Component P_IP4 ''127.0.0.1''] 2) = Inl e)"
  using Listen_single_listener
      [of "\<lparr>maxInFlightConnections = 16,
            registered = Some \<lparr>ptr = 1, inflightQueueCap = 16\<rparr>,
            streamHandler = Some \<lparr>ptr = 1, inflightQueueCap = 16\<rparr>\<rparr>"
          "[Component P_WEBRTC []]" 2]
    Listen_single_listener
      [of "\<lparr>maxInFlightConnections = 16, registered = None, streamHandler = None\<rparr>"
          "[Component P_WEBRTC []]" 2]
    Listen_single_listener
      [of "\<lparr>maxInFlightConnections = 16, registered = None, streamHandler = None\<rparr>"
          "[Component P_IP4 ''127.0.0.1'']" 2]
  by (simp add: P_IP4_def P_WEBRTC_def)

section \<open>Properties of the completion race\<close>

lemma ready_empty_iff:
  "ready st = [] \<longleftrightarrow>
     ctxErr st = None \<and> readErr st = None \<and> writeErr st = None \<and> connectionState st = None"
  by (simp add: ready_def split: option.splits)

lemma selectReady_None_iff: "selectReady k st = None \<longleftrightarrow> ready st = []"
  by (simp add: selectReady_def split: list.splits)

lemma selectReady_in_ready:
  assumes "selectReady k st = Some s"
  shows "s \<in> set (ready st)"
proof (cases "ready st")
  case Nil
  with assms show ?thesis by (simp add: selectReady_def)
next
  case (Cons r rs)
  have "k mod length (r # rs) < length (r # rs)" by simp
  then have "(r # rs) ! (k mod length (r # rs)) \<in> set (r # rs)" by (rule nth_mem)
  with assms Cons show ?thesis by (simp add: selectReady_def)
qed

lemma trySend_not_None: "trySend v ch \<noteq> None"
  by (simp add: trySend_def split: option.splits)

lemma onConnectionStateChange_None:
  "onConnectionStateChange s ch = None \<Longrightarrow> ch = None"
  by (cases s) (simp_all add: trySend_not_None)

lemma onConnectionStateChange_intermediate:
  "\<not> terminalState s \<Longrightarrow> onConnectionStateChange s ch = ch"
  by (cases s) (simp_all add: terminalState_def)

lemma onConnectionStateChange_terminal:
  "onConnectionStateChange s ch = Some s' \<Longrightarrow> ch = Some s' \<or> (ch = None \<and> s' = s \<and> terminalState s)"
  by (cases s; cases ch) (simp_all add: trySend_def terminalState_def)

lemma step_connectionState:
  "connectionState (step eng st e) = Some s' \<Longrightarrow>
   connectionState st = Some s' \<or> terminalState s'"
proof (cases e)
  case (StateChange s)
  assume "connectionState (step eng st e) = Some s'"
  with StateChange show ?thesis
    using onConnectionStateChange_terminal [of s "connectionState st" s'] by auto
next
  case (LocalCandidate c)
  assume "connectionState (step eng st e) = Some s'"
  with LocalCandidate show ?thesis
    by (simp add: onICECandidate_def split: local_candidate.splits sum.splits option.splits)
next
  case (ReaderTurn r)
  assume "connectionState (step eng st e) = Some s'"
  with ReaderTurn show ?thesis
    by (simp add: readerTurn_def split: if_splits read_result.splits sum.splits option.splits)
next
  case (ContextDone x)
  assume "connectionState (step eng st e) = Some s'"
  with ContextDone show ?thesis by simp
qed

lemma step_terminalOrEmpty: "terminalOrEmpty st \<Longrightarrow> terminalOrEmpty (step eng st e)"
  using step_connectionState [of eng st e]
  by (auto simp: terminalOrEmpty_def split: option.splits)

lemma foldl_step_terminalOrEmpty:
  "terminalOrEmpty st \<Longrightarrow> terminalOrEmpty (foldl (step eng) st es)"
  by (induction es arbitrary: st) (simp_all add: step_terminalOrEmpty)

lemma ready_ConnState:
  "ConnState s \<in> set (ready st) \<Longrightarrow> connectionState st = Some s"
  by (auto simp: ready_def split: option.splits)

lemma await_ConnState_terminal:
  "terminalOrEmpty st \<Longrightarrow> fst (await eng k st es) = ConnState s \<Longrightarrow> terminalState s"
proof (induction es arbitrary: st)
  case Nil
  then show ?case
    by (auto simp: terminalOrEmpty_def split: option.splits
        dest!: selectReady_in_ready ready_ConnState)
next
  case (Cons e es)
  show ?case
  proof (cases "selectReady k st")
    case None
    with Cons.prems(2) have "fst (await eng k (step eng st e) es) = ConnState s" by simp
    with Cons.IH [OF step_terminalOrEmpty [OF Cons.prems(1)]] show ?thesis by blast
  next
    case (Some sig)
    with Cons.prems(2) have "sig = ConnState s" by simp
    with Some have "connectionState st = Some s"
      by (auto dest!: selectReady_in_ready ready_ConnState)
    with Cons.prems(1) show ?thesis by (simp add: terminalOrEmpty_def)
  qed
qed

lemma step_intermediate: "\<not> terminalState s \<Longrightarrow> step eng st (StateChange s) = st"
  by (simp add: onConnectionStateChange_intermediate)

lemma await_skip:
  assumes "step eng st e = st"
  shows "await eng k st (e # es) = await eng k st es"
proof (cases "selectReady k st")
  case None
  with assms show ?thesis by simp
next
  case (Some sig)
  then show ?thesis by (cases es) simp_all
qed

text \<open>
  Claim C10. Only the terminal endpoint states reach the \<open>connectionState\<close> channel. A
  state-change callback for any other state (unknown, new, connecting, disconnected) leaves
  the whole state of the race as it is, so the main goroutine goes on waiting exactly as if
  the callback had not happened; and whatever callbacks, candidates, reads and context
  events take place before and during the \<open>select\<close>, if the \<open>select\<close> receives an endpoint
  state then that state is connected, failed or closed.
\<close>

theorem connectionState_signals_only_terminal_states:
  "(s \<noteq> StateConnected \<and> s \<noteq> StateFailed \<and> s \<noteq> StateClosed \<longrightarrow>
      step eng st (StateChange s) = st \<and>
      await eng k st (StateChange s # es) = await eng k st es) \<and>
   (fst (await eng k (foldl (step eng) raceStart evs) evs') = ConnState s' \<longrightarrow>
      s' = StateConnected \<or> s' = StateFailed \<or> s' = StateClosed)"
proof -
  have "terminalOrEmpty (foldl (step eng) raceStart evs)"
    by (rule foldl_step_terminalOrEmpty) (simp add: terminalOrEmpty_def raceStart_def)
  then have "fst (await eng k (foldl (step eng) raceStart evs) evs') = ConnState s' \<Longrightarrow>
      terminalState s'"
    by (rule await_ConnState_terminal)
  moreover have "step eng st (StateChange s) = st \<and>
      await eng k st (StateChange s # es) = await eng k st es" if "\<not> terminalState s"
    using step_intermediate [OF that, of eng st] await_skip [of eng st "StateChange s" k es]
    by simp
  ultimately show ?thesis by (auto simp: terminalState_def)
qed

theorem connectionState_signals_only_terminal_states_witness:
  "StateConnecting \<noteq> StateConnected \<and> StateConnecting \<noteq> StateFailed \<and>
   StateConnecting \<noteq> StateClosed \<and>
   step (rtc smoothWorld) raceStart (StateChange StateConnecting) = raceStart \<and>
   await (rtc smoothWorld) 0 raceStart [StateChange StateConnecting, StateChange StateFailed]
     = await (rtc smoothWorld) 0 raceStart [StateChange StateFailed] \<and>
   fst (await (rtc smoothWorld) 0 (foldl (step (rtc smoothWorld)) raceStart [StateChange StateNew])
          [StateChange StateDisconnected, StateChange StateFailed, StateChange StateConnected])
     = ConnState StateFailed"
proof -
  have "fst (await (rtc smoothWorld) 0
               (foldl (step (rtc smoothWorld)) raceStart [StateChange StateNew])
               [StateChange StateDisconnected, StateChange StateFailed, StateChange StateConnected])
          = ConnState StateFailed"
    by (simp add: raceStart_def selectReady_def ready_def trySend_def)
  then show ?thesis
    using connectionState_signals_only_terminal_states
      [of StateConnecting "rtc smoothWorld" raceStart 0 "[StateChange StateFailed]"
          "[StateChange StateNew]"
          "[StateChange StateDisconnected, StateChange StateFailed, StateChange StateConnected]"
          StateFailed]
    by simp
qed

lemma readerTurn_empty_candidate:
  assumes "Type msg = Some ICE_CANDIDATE" "Data msg = None \<or> Data msg = Some []"
    "ctxErr st = None"
  shows "readerTurn eng (Received msg) st = st\<lparr>calls := calls st @ [ReadMsg]\<rparr>"
  using assms by (auto simp: readerTurn_def)

lemma sameSignals_ready: "sameSignals a b \<Longrightarrow> ready a = ready b"
  by (simp add: sameSignals_def ready_def)

lemma sameSignals_selectReady: "sameSignals a b \<Longrightarrow> selectReady k a = selectReady k b"
  by (simp add: selectReady_def sameSignals_ready)

lemma sameSignals_step: "sameSignals a b \<Longrightarrow> sameSignals (step eng a e) (step eng b e)"
proof (cases e)
  case (StateChange s)
  assume "sameSignals a b"
  with StateChange show ?thesis by (simp add: sameSignals_def)
next
  case (LocalCandidate c)
  assume "sameSignals a b"
  with LocalCandidate show ?thesis
    by (simp add: sameSignals_def onICECandidate_def
        split: local_candidate.splits sum.splits option.splits)
next
  case (ReaderTurn r)
  assume "sameSignals a b"
  with ReaderTurn show ?thesis
    by (simp add: sameSignals_def readerTurn_def
        split: read_result.splits sum.splits option.splits)
next
  case (ContextDone x)
  assume "sameSignals a b"
  with ContextDone show ?thesis by (simp add: sameSignals_def)
qed

lemma sameSignals_await:
  "sameSignals a b \<Longrightarrow> fst (await eng k a es) = fst (await eng k b es)"
proof (induction es arbitrary: a b)
  case Nil
  then show ?case
    using sameSignals_selectReady [of a b k] by (simp split: option.splits)
next
  case (Cons e es)
  from Cons.prems have "sameSignals (step eng a e) (step eng b e)" by (rule sameSignals_step)
  then have "fst (await eng k (step eng a e) es) = fst (await eng k (step eng b e) es)"
    by (rule Cons.IH)
  then show ?case
    using sameSignals_selectReady [OF Cons.prems, of k] by (simp split: option.splits)
qed

lemma await_first:
  "await eng k st (e # es) =
     (if ready st = [] then await eng k (step eng st e) es else await eng k st es)"
proof (cases "selectReady k st")
  case None
  then have "ready st = []" by (simp add: selectReady_None_iff)
  with None show ?thesis by simp
next
  case (Some sig)
  then have "ready st \<noteq> []" using selectReady_None_iff [of k st] by auto
  with Some show ?thesis by (cases es) simp_all
qed

text \<open>
  Claim C6. During candidate exchange, when the reader goroutine receives a message of type
  \<open>ICE_CANDIDATE\<close> whose payload is missing or empty, nothing happens beyond the read itself:
  no \<open>AddICECandidate\<close> call is made, nothing is sent on \<open>readErr\<close>, the reader stays in its
  loop for the next message, and the \<open>select\<close> receives the same signal as it would without
  that message.
\<close>

theorem empty_candidate_is_ignored:
  assumes "Type msg = Some ICE_CANDIDATE" and "Data msg = None \<or> Data msg = Some []"
    and "reading st" and "ctxErr st = None"
  shows "step eng st (ReaderTurn (Received msg)) = st\<lparr>calls := calls st @ [ReadMsg]\<rparr> \<and>
         readErr (step eng st (ReaderTurn (Received msg))) = readErr st \<and>
         reading (step eng st (ReaderTurn (Received msg))) \<and>
         fst (await eng k st (ReaderTurn (Received msg) # es)) = fst (await eng k st es)"
proof -
  have s: "step eng st (ReaderTurn (Received msg)) = st\<lparr>calls := calls st @ [ReadMsg]\<rparr>"
    using assms readerTurn_empty_candidate [of msg st eng] by simp
  have "sameSignals (st\<lparr>calls := calls st @ [ReadMsg]\<rparr>) st" by (simp add: sameSignals_def)
  then have "fst (await eng k (st\<lparr>calls := calls st @ [ReadMsg]\<rparr>) es) = fst (await eng k st es)"
    by (rule sameSignals_await)
  then have "fst (await eng k st (ReaderTurn (Received msg) # es)) = fst (await eng k st es)"
    unfolding await_first [of eng k st "ReaderTurn (Received msg)" es] s by simp
  with s assms(3) show ?thesis by simp
qed

theorem empty_candidate_is_ignored_witness:
  "Type (Message (Some ICE_CANDIDATE) (Some [])) = Some ICE_CANDIDATE \<and>
   reading raceStart \<and> ctxErr raceStart = None \<and>
   step (rtc smoothWorld) raceStart (ReaderTurn (Received (Message (Some ICE_CANDIDATE) (Some []))))
     = raceStart\<lparr>calls := calls raceStart @ [ReadMsg]\<rparr> \<and>
   fst (await (rtc smoothWorld) 0 raceStart
          [ReaderTurn (Received (Message (Some ICE_CANDIDATE) (Some []))),
           StateChange StateConnected])
     = fst (await (rtc smoothWorld) 0 raceStart [StateChange StateConnected])"
proof -
  have h: "Type (Message (Some ICE_CANDIDATE) (Some [])) = Some ICE_CANDIDATE"
    "Data (Message (Some ICE_CANDIDATE) (Some [])) = None \<or>
     Data (Message (Some ICE_CANDIDATE) (Some [])) = Some []"
    "reading raceStart" "ctxErr raceStart = None"
    by (simp_all add: raceStart_def)
  from h empty_candidate_is_ignored [OF h, of "rtc smoothWorld" 0 "[StateChange StateConnected]"]
  show ?thesis by (simp only: simp_thms)
qed

lemma step_ready_mono: "ready (step eng st e) = [] \<Longrightarrow> ready st = []"
proof (cases e)
  case (StateChange s)
  assume "ready (step eng st e) = []"
  with StateChange show ?thesis
    by (auto simp: ready_empty_iff dest: onConnectionStateChange_None)
next
  case (LocalCandidate c)
  assume "ready (step eng st e) = []"
  with LocalCandidate show ?thesis
    by (auto simp: ready_empty_iff onICECandidate_def trySend_not_None
        split: local_candidate.splits sum.splits option.splits)
next
  case (ReaderTurn r)
  assume "ready (step eng st e) = []"
  with ReaderTurn show ?thesis
    by (auto simp: ready_empty_iff readerTurn_def
        split: if_splits read_result.splits sum.splits option.splits)
next
  case (ContextDone x)
  assume "ready (step eng st e) = []"
  with ContextDone show ?thesis by (simp add: ready_empty_iff trySend_not_None)
qed

lemma foldl_step_ready_mono: "ready (foldl (step eng) st es) = [] \<Longrightarrow> ready st = []"
  by (induction es arbitrary: st) (auto dest: step_ready_mono)

lemma await_quiet:
  "ready (foldl (step eng) st quiet) = [] \<Longrightarrow>
   await eng k st (quiet @ es) = await eng k (foldl (step eng) st quiet) es"
proof (induction quiet arbitrary: st)
  case Nil
  then show ?case by simp
next
  case (Cons e quiet)
  from Cons.prems have q: "ready (foldl (step eng) (step eng st e) quiet) = []" by simp
  then have "ready (step eng st e) = []" by (rule foldl_step_ready_mono)
  then have "ready st = []" by (rule step_ready_mono)
  then show ?case using Cons.IH [OF q] by (simp add: await_first del: await.simps)
qed

lemma await_deadline_event:
  assumes "ready st = []"
  shows "await eng k st (ContextDone DeadlineExceeded # es) =
           (CtxDone DeadlineExceeded, st\<lparr>ctxErr := Some DeadlineExceeded\<rparr>)"
proof -
  from assms have n: "ctxErr st = None" "readErr st = None" "writeErr st = None"
    "connectionState st = None" by (simp_all add: ready_empty_iff)
  then have r: "ready (st\<lparr>ctxErr := Some DeadlineExceeded\<rparr>) = [CtxDone DeadlineExceeded]"
    by (simp add: ready_def)
  then have "selectReady k (st\<lparr>ctxErr := Some DeadlineExceeded\<rparr>) = Some (CtxDone DeadlineExceeded)"
    by (simp add: selectReady_def)
  then have "await eng k (st\<lparr>ctxErr := Some DeadlineExceeded\<rparr>) es =
      (CtxDone DeadlineExceeded, st\<lparr>ctxErr := Some DeadlineExceeded\<rparr>)"
    by (cases es) simp_all
  with assms n show ?thesis by (simp add: await_first trySend_def del: await.simps)
qed

lemma await_timer:
  assumes "ready st = []"
  shows "await eng k st [] = (CtxDone DeadlineExceeded, st\<lparr>ctxErr := Some DeadlineExceeded\<rparr>)"
  using assms selectReady_None_iff [of k st] by simp

lemma await_deadline:
  assumes "ready (foldl (step eng) st quiet) = []"
    and "es = quiet @ ContextDone DeadlineExceeded # rest \<or> es = quiet"
  shows "await eng k st es =
           (CtxDone DeadlineExceeded, (foldl (step eng) st quiet)\<lparr>ctxErr := Some DeadlineExceeded\<rparr>)"
proof -
  from assms(2) show ?thesis
  proof
    assume "es = quiet @ ContextDone DeadlineExceeded # rest"
    then show ?thesis
      using await_quiet [OF assms(1), of k "ContextDone DeadlineExceeded # rest"]
        await_deadline_event [OF assms(1), of eng k rest] by simp
  next
    assume "es = quiet"
    then show ?thesis
      using await_quiet [OF assms(1), of k "[]"] await_timer [OF assms(1), of eng k] by simp
  qed
qed

section \<open>Properties of the dialer\<close>

lemma setupConnection_invalid_answer:
  assumes "offerSent w" and "readAnswer w = Inr msg"
    and "Type msg \<noteq> Some SDP_ANSWER \<or> Data msg = None \<or> Data msg = Some []"
  shows "\<exists>e sdp. setupConnection w raddr =
           (Returns (Inl e),
            [WriteMsg (Message (Some SDP_OFFER) (Some sdp)), SetLocalDescription, ReadMsg,
             DcClose, PcClose])"
proof -
  from assms(1) obtain sdp where "createOffer w = Inr sdp" "newPeerConnection w = None"
    "createDataChannel w = None" "writeOffer w = None" "setLocalDescription w = None"
    by (auto simp: offerSent_def split: sum.splits)
  with assms(2,3) show ?thesis
    by (auto simp: setupConnection_def deferred_def Let_def)
qed

lemma setupConnection_candidate_exchange:
  assumes "answerExchanged w"
  shows "\<exists>sdp. setupConnection w raddr =
           (case await (rtc w) (pick w) (foldl (step (rtc w)) raceStart (early w)) (late w) of
              (sig, st) \<Rightarrow>
                (case finishConnection w raddr
                        ([WriteMsg (Message (Some SDP_OFFER) (Some sdp)), SetLocalDescription,
                          ReadMsg, SetRemoteDescription] @ calls st) sig of
                   (res, cs) \<Rightarrow> (Returns res, cs)))"
proof -
  from assms obtain sdp msg d where "createOffer w = Inr sdp" "newPeerConnection w = None"
    "createDataChannel w = None" "writeOffer w = None" "setLocalDescription w = None"
    "readAnswer w = Inr msg" "Type msg = Some SDP_ANSWER" "Data msg = Some d" "d \<noteq> []"
    "setRemoteDescription w = None"
    by (auto simp: answerExchanged_def offerSent_def split: sum.splits)
  then have "setupConnection w raddr =
           (case await (rtc w) (pick w) (foldl (step (rtc w)) raceStart (early w)) (late w) of
              (sig, st) \<Rightarrow>
                (case finishConnection w raddr
                        ([WriteMsg (Message (Some SDP_OFFER) (Some sdp)), SetLocalDescription,
                          ReadMsg, SetRemoteDescription] @ calls st) sig of
                   (res, cs) \<Rightarrow> (Returns res, cs)))"
    by (simp add: setupConnection_def Let_def)
  then show ?thesis by blast
qed

lemma await_single_ready:
  assumes "ready st = [sig]"
  shows "await eng k st es = (sig, st)"
proof -
  from assms have "selectReady k st = Some sig" by (simp add: selectReady_def)
  then show ?thesis by (cases es) simp_all
qed

lemma setupConnection_takes_deadline:
  assumes "answerExchanged w"
    and "fst (await (rtc w) (pick w) (foldl (step (rtc w)) raceStart (early w)) (late w))
           = CtxDone DeadlineExceeded"
  shows "fst (setupConnection w raddr) = Returns (Inl DeadlineExceeded) \<and>
         PcClose \<in> set (snd (setupConnection w raddr))"
proof -
  from setupConnection_candidate_exchange [OF assms(1), of raddr] obtain sdp where
    "setupConnection w raddr =
           (case await (rtc w) (pick w) (foldl (step (rtc w)) raceStart (early w)) (late w) of
              (sig, st) \<Rightarrow>
                (case finishConnection w raddr
                        ([WriteMsg (Message (Some SDP_OFFER) (Some sdp)), SetLocalDescription,
                          ReadMsg, SetRemoteDescription] @ calls st) sig of
                   (res, cs) \<Rightarrow> (Returns res, cs)))" by blast
  with assms(2) show ?thesis
    by (cases "await (rtc w) (pick w) (foldl (step (rtc w)) raceStart (early w)) (late w)")
      (simp add: finishConnection_def)
qed

text \<open>
  Claim C5, as stated, says that a deadline that passes before the endpoint is connected and
  before any read or write error makes \<open>setupConnection\<close> return the deadline error. When
  the deadline has passed and the engine has then reported \<open>connected\<close> before the main
  goroutine reaches the \<open>select\<close>, two cases are ready and the \<open>select\<close> may take the
  connection state: \<open>setupConnection\<close> returns the connection and does not close the peer
  connection.
\<close>

theorem deadline_before_connected_counterexample:
  "answerExchanged racyWorld \<and>
   early racyWorld = [ContextDone DeadlineExceeded, StateChange StateConnected] \<and>
   fst (setupConnection racyWorld dialAddr)
     = Returns (Inr \<lparr>localAddr = [Component P_IP4 ''192.0.2.1'', Component P_WEBRTC []],
                     remoteAddr = dialAddr\<rparr>) \<and>
   fst (setupConnection racyWorld dialAddr) \<noteq> Returns (Inl DeadlineExceeded) \<and>
   PcClose \<notin> set (snd (setupConnection racyWorld dialAddr))"
  by (simp add: answerExchanged_def offerSent_def racyWorld_def smoothWorld_def
      setupConnection_def finishConnection_def deferred_def getLocalConnectionAddress_def
      raceStart_def selectReady_def ready_def trySend_def Encapsulate_def WebRTCAddr_def Let_def)

text \<open>
  Claim C5, amended. The offer/answer round has succeeded and the dialer is in candidate
  exchange. If the negotiation deadline passes while no completion signal is pending, then
  \<open>setupConnection\<close> returns the deadline error and closes the peer connection. That is:
  either the main goroutine is waiting in the \<open>select\<close> and, up to the moment the deadline
  passes (the context reports \<open>DeadlineExceeded\<close>, or nothing more happens and the timer of
  \<open>context.WithTimeout\<close> fires), the engine has reported no connected, failed or closed state
  and no read or write error has been sent; or the deadline has passed before the \<open>select\<close>
  is reached and it is the only signal pending there.
\<close>

theorem deadline_closes_endpoint:
  assumes "answerExchanged w"
    and "((late w = quiet @ ContextDone DeadlineExceeded # rest \<or> late w = quiet) \<and>
          ready (foldl (step (rtc w)) raceStart (early w @ quiet)) = []) \<or>
         ready (foldl (step (rtc w)) raceStart (early w)) = [CtxDone DeadlineExceeded]"
  shows "fst (setupConnection w raddr) = Returns (Inl DeadlineExceeded) \<and>
         PcClose \<in> set (snd (setupConnection w raddr))"
proof -
  let ?st0 = "foldl (step (rtc w)) raceStart (early w)"
  have "fst (await (rtc w) (pick w) ?st0 (late w)) = CtxDone DeadlineExceeded"
    using assms(2)
  proof
    assume h: "(late w = quiet @ ContextDone DeadlineExceeded # rest \<or> late w = quiet) \<and>
          ready (foldl (step (rtc w)) raceStart (early w @ quiet)) = []"
    then have q: "ready (foldl (step (rtc w)) ?st0 quiet) = []" by simp
    from h have l: "late w = quiet @ ContextDone DeadlineExceeded # rest \<or> late w = quiet"
      by simp
    have "await (rtc w) (pick w) ?st0 (late w) =
        (CtxDone DeadlineExceeded,
         (foldl (step (rtc w)) ?st0 quiet)\<lparr>ctxErr := Some DeadlineExceeded\<rparr>)"
      using q l by (rule await_deadline)
    then show ?thesis by simp
  next
    assume "ready ?st0 = [CtxDone DeadlineExceeded]"
    then have "await (rtc w) (pick w) ?st0 (late w) = (CtxDone DeadlineExceeded, ?st0)"
      by (rule await_single_ready)
    then show ?thesis by simp
  qed
  with assms(1) show ?thesis by (rule setupConnection_takes_deadline)
qed

theorem deadline_closes_endpoint_witness:
  "answerExchanged slowWorld \<and>
   late slowWorld = [StateChange StateConnecting] @ ContextDone DeadlineExceeded #
                    [StateChange StateConnected] \<and>
   ready (foldl (step (rtc slowWorld)) raceStart (early slowWorld @ [StateChange StateConnecting]))
     = [] \<and>
   fst (setupConnection slowWorld dialAddr) = Returns (Inl DeadlineExceeded) \<and>
   PcClose \<in> set (snd (setupConnection slowWorld dialAddr)) \<and>
   answerExchanged expiredWorld \<and>
   ready (foldl (step (rtc expiredWorld)) raceStart (early expiredWorld))
     = [CtxDone DeadlineExceeded] \<and>
   fst (setupConnection expiredWorld dialAddr) = Returns (Inl DeadlineExceeded) \<and>
   PcClose \<in> set (snd (setupConnection expiredWorld dialAddr))"
proof -
  have a: "answerExchanged slowWorld"
    by (simp add: answerExchanged_def offerSent_def slowWorld_def smoothWorld_def)
  have l: "late slowWorld = [StateChange StateConnecting] @ ContextDone DeadlineExceeded #
                    [StateChange StateConnected]"
    by (simp add: slowWorld_def)
  have r: "ready (foldl (step (rtc slowWorld)) raceStart
                    (early slowWorld @ [StateChange StateConnecting])) = []"
    by (simp add: slowWorld_def smoothWorld_def raceStart_def ready_def onICECandidate_def)
  have s: "((late slowWorld = [StateChange StateConnecting] @ ContextDone DeadlineExceeded #
                    [StateChange StateConnected] \<or> late slowWorld = [StateChange StateConnecting]) \<and>
          ready (foldl (step (rtc slowWorld)) raceStart
                   (early slowWorld @ [StateChange StateConnecting])) = []) \<or>
         ready (foldl (step (rtc slowWorld)) raceStart (early slowWorld))
           = [CtxDone DeadlineExceeded]"
    using l r by (simp only: simp_thms)
  have a': "answerExchanged expiredWorld"
    by (simp add: answerExchanged_def offerSent_def expiredWorld_def smoothWorld_def)
  have r': "ready (foldl (step (rtc expiredWorld)) raceStart (early expiredWorld))
              = [CtxDone DeadlineExceeded]"
    by (simp add: expiredWorld_def smoothWorld_def raceStart_def ready_def trySend_def)
  have s': "((late expiredWorld = [] @ ContextDone DeadlineExceeded # [] \<or>
              late expiredWorld = []) \<and>
          ready (foldl (step (rtc expiredWorld)) raceStart (early expiredWorld @ [])) = []) \<or>
         ready (foldl (step (rtc expiredWorld)) raceStart (early expiredWorld))
           = [CtxDone DeadlineExceeded]"
    using r' by (simp only: simp_thms)
  from a l r a' r' deadline_closes_endpoint [OF a s, of dialAddr]
    deadline_closes_endpoint [OF a' s', of dialAddr]
  show ?thesis by (simp only: simp_thms)
qed

text \<open>A failed (or closed) state reported before the deadline ends the race with its own
  error, as a connected state ends it with success: the deadline decides only while none of
  the three has been reported.\<close>

lemma failed_state_decides_before_deadline:
  "fst (setupConnection failedWorld dialAddr) = Returns (Inl (Errorf ''conn establishment failed'')) \<and>
   PcClose \<in> set (snd (setupConnection failedWorld dialAddr))"
  by (simp add: failedWorld_def smoothWorld_def setupConnection_def finishConnection_def
      deferred_def raceStart_def selectReady_def ready_def readerTurn_def onICECandidate_def
      trySend_def Let_def)

text \<open>
  Claim C1. The dialer has opened the signaling stream and sent its offer. If the first
  message read is not of type \<open>SDP_ANSWER\<close> (another type or no type at all) or has a missing
  or empty payload, \<open>setupConnection\<close> returns an error and no connection, \<open>dialWithScope\<close>
  returns an error, and the stream is torn down by \<open>Reset\<close>: the only calls that end the
  stream are \<open>Reset\<close> followed by the deferred \<open>Close\<close>, which finds the stream already
  aborted.
\<close>

theorem invalid_answer_resets_stream:
  assumes "newStream w = None" and "setService w = None" and "reserveMemory w = None"
    and "offerSent w" and "readAnswer w = Inr msg"
    and "Type msg \<noteq> Some SDP_ANSWER \<or> Data msg = None \<or> Data msg = Some []"
  shows "(\<exists>e. fst (setupConnection w raddr) = Returns (Inl e)) \<and>
         (\<exists>e. fst (dialWithScope w p raddr) = Returns (Inl e)) \<and>
         filter (\<lambda>c. c = StreamReset \<or> c = StreamClose) (snd (dialWithScope w p raddr))
           = [StreamReset, StreamClose] \<and>
         streamAfter StreamOpen (snd (dialWithScope w p raddr)) = StreamAborted"
proof -
  from setupConnection_invalid_answer [OF assms(4,5,6), of raddr] obtain e sdp where
    s: "setupConnection w raddr =
           (Returns (Inl e),
            [WriteMsg (Message (Some SDP_OFFER) (Some sdp)), SetLocalDescription, ReadMsg,
             DcClose, PcClose])" by blast
  have d: "dialWithScope w p raddr =
      (Returns (Inl (Wrapf ''error establishing webrtc.PeerConnection'' e)),
       [NewStream, SetService, ReserveMemory (2 * maxMsgSize), SetDeadline,
        WriteMsg (Message (Some SDP_OFFER) (Some sdp)), SetLocalDescription, ReadMsg,
        DcClose, PcClose, StreamReset, StreamClose, ReleaseMemory maxMsgSize])"
    using assms(1,2,3) by (simp add: dialWithScope_def s Let_def)
  show ?thesis unfolding d s by simp
qed

theorem invalid_answer_resets_stream_witness:
  "offerSent rudeWorld \<and>
   readAnswer rudeWorld = Inr (Message (Some ICE_CANDIDATE) (Some ''cand-x'')) \<and>
   (\<exists>e. fst (setupConnection rudeWorld dialAddr) = Returns (Inl e)) \<and>
   (\<exists>e. fst (dialWithScope rudeWorld ''QmB'' dialAddr) = Returns (Inl e)) \<and>
   filter (\<lambda>c. c = StreamReset \<or> c = StreamClose) (snd (dialWithScope rudeWorld ''QmB'' dialAddr))
     = [StreamReset, StreamClose] \<and>
   streamAfter StreamOpen (snd (dialWithScope rudeWorld ''QmB'' dialAddr)) = StreamAborted"
proof -
  have h: "newStream rudeWorld = None" "setService rudeWorld = None"
    "reserveMemory rudeWorld = None" "offerSent rudeWorld"
    "readAnswer rudeWorld = Inr (Message (Some ICE_CANDIDATE) (Some ''cand-x''))"
    "Type (Message (Some ICE_CANDIDATE) (Some ''cand-x'')) \<noteq> Some SDP_ANSWER \<or>
     Data (Message (Some ICE_CANDIDATE) (Some ''cand-x'')) = None \<or>
     Data (Message (Some ICE_CANDIDATE) (Some ''cand-x'')) = Some []"
    by (simp_all add: rudeWorld_def smoothWorld_def offerSent_def)
  from h(4,5) invalid_answer_resets_stream [OF h, of dialAddr "''QmB''"]
  show ?thesis by (simp only: simp_thms)
qed

subsection \<open>Scope, stream and memory on every path\<close>

lemma step_calls: "list_all negotiationCall (calls st) \<Longrightarrow>
  list_all negotiationCall (calls (step eng st e))"
proof (cases e)
  case (StateChange s)
  assume "list_all negotiationCall (calls st)"
  with StateChange show ?thesis by simp
next
  case (LocalCandidate c)
  assume "list_all negotiationCall (calls st)"
  with LocalCandidate show ?thesis
    by (simp add: onICECandidate_def split: local_candidate.splits sum.splits option.splits)
next
  case (ReaderTurn r)
  assume "list_all negotiationCall (calls st)"
  with ReaderTurn show ?thesis
    by (simp add: readerTurn_def split: read_result.splits sum.splits option.splits)
next
  case (ContextDone x)
  assume "list_all negotiationCall (calls st)"
  with ContextDone show ?thesis by simp
qed

lemma foldl_step_calls: "list_all negotiationCall (calls st) \<Longrightarrow>
  list_all negotiationCall (calls (foldl (step eng) st es))"
  by (induction es arbitrary: st) (simp_all add: step_calls)

lemma await_calls: "list_all negotiationCall (calls st) \<Longrightarrow>
  list_all negotiationCall (calls (snd (await eng k st es)))"
proof (induction es arbitrary: st)
  case Nil
  then show ?case by (simp split: option.splits)
next
  case (Cons e es)
  then show ?case using step_calls [of st eng e] by (simp split: option.splits)
qed

lemma finishConnection_calls:
  "list_all negotiationCall sofar \<Longrightarrow>
   list_all negotiationCall (snd (finishConnection w raddr sofar sig))"
  by (simp add: finishConnection_def deferred_def split: signal.splits sum.splits option.splits)

lemma setupConnection_calls: "list_all negotiationCall (snd (setupConnection w raddr))"
proof -
  have r: "list_all negotiationCall
      (calls (snd (await (rtc w) (pick w) (foldl (step (rtc w)) raceStart (early w)) (late w))))"
    by (intro await_calls foldl_step_calls) (simp add: raceStart_def)
  have f: "list_all negotiationCall (snd (finishConnection w raddr
        ([WriteMsg m, SetLocalDescription, ReadMsg, SetRemoteDescription] @
         calls (snd (await (rtc w) (pick w) (foldl (step (rtc w)) raceStart (early w)) (late w))))
        sig))" for m sig
    using r by (intro finishConnection_calls) simp
  show ?thesis
    using f by (simp add: setupConnection_def deferred_def Let_def split_beta
        split: option.splits sum.splits)
qed

lemma reservedMemory_append:
  "reservedMemory (xs @ ys) = reservedMemory xs + reservedMemory ys"
  by (induction xs rule: reservedMemory.induct) simp_all

lemma negotiation_reservedMemory:
  "list_all negotiationCall cs \<Longrightarrow> reservedMemory cs = 0"
  by (induction cs rule: reservedMemory.induct) simp_all

lemma negotiation_ScopeDone:
  "list_all negotiationCall cs \<Longrightarrow> count_list cs ScopeDone = 0"
  by (induction cs) auto

lemma streamAfter_append:
  "streamAfter s (xs @ ys) = streamAfter (streamAfter s xs) ys"
  by (induction s xs rule: streamAfter.induct) simp_all

lemma negotiation_streamAfter:
  "list_all negotiationCall cs \<Longrightarrow> streamAfter s cs = s"
  by (induction s cs rule: streamAfter.induct) simp_all

lemma not_wireIO_before_reservation:
  "newStream w = None \<Longrightarrow> setService w = None \<Longrightarrow> reserveMemory w = None \<Longrightarrow>
   \<exists>rest. snd (dialWithScope w p raddr) =
     [NewStream, SetService, ReserveMemory (2 * maxMsgSize), SetDeadline] @ rest"
  by (simp add: dialWithScope_def Let_def split_beta
      split: sum.splits option.splits outcome.splits)

lemma dialWithScope_reservedMemory:
  assumes "newStream w = None" and "setService w = None" and "reserveMemory w = None"
  shows "reservedMemory (snd (dialWithScope w p raddr)) = int maxMsgSize"
proof -
  have "reservedMemory (snd (setupConnection w raddr)) = 0"
    using setupConnection_calls by (rule negotiation_reservedMemory)
  with assms show ?thesis
    by (cases "setupConnection w raddr")
      (simp add: dialWithScope_def Let_def reservedMemory_append
        split: sum.splits option.splits outcome.splits)
qed

lemma dialWithScope_ScopeDone: "count_list (snd (dialWithScope w p raddr)) ScopeDone = 0"
proof -
  have "count_list (snd (setupConnection w raddr)) ScopeDone = 0"
    using setupConnection_calls by (rule negotiation_ScopeDone)
  then show ?thesis
    by (cases "setupConnection w raddr")
      (simp add: dialWithScope_def Let_def split: sum.splits option.splits outcome.splits)
qed

lemma Dial_ScopeDone:
  assumes "connect w = None" and "openConnection w = None" and "setPeer w = None"
  shows "count_list (snd (Dial w raddr p)) ScopeDone =
           (case fst (Dial w raddr p) of
              Returns (Inl _) \<Rightarrow> 1 | Returns (Inr _) \<Rightarrow> 0 | Panics _ \<Rightarrow> 0)"
  using assms dialWithScope_ScopeDone [of w p raddr]
  by (cases "dialWithScope w p raddr")
    (simp add: Dial_def Let_def split: sum.splits outcome.splits)

lemma dialWithScope_stream:
  assumes "newStream w = None"
  shows "streamAfter StreamOpen (snd (dialWithScope w p raddr)) =
           (case fst (dialWithScope w p raddr) of
              Returns (Inl _) \<Rightarrow> StreamAborted
            | Returns (Inr _) \<Rightarrow> StreamClosedGracefully
            | Panics _ \<Rightarrow> StreamClosedGracefully)"
proof -
  have "streamAfter s (snd (setupConnection w raddr)) = s" for s
    using setupConnection_calls by (rule negotiation_streamAfter)
  with assms show ?thesis
    by (cases "setupConnection w raddr")
      (simp add: dialWithScope_def Let_def streamAfter_append
        split: sum.splits option.splits outcome.splits)
qed

lemmas dial_defs = Dial_def dialWithScope_def setupConnection_def finishConnection_def
  deferred_def getLocalConnectionAddress_def raceStart_def selectReady_def ready_def
  readerTurn_def onICECandidate_def trySend_def Let_def

text \<open>When \<open>NewPeerConnection\<close> fails, the deferred \<open>pc.Close()\<close> on the \<open>nil\<close> peer connection
  panics: \<open>Dial\<close> does not return, the stream is closed by the deferred \<open>Close\<close> without a
  \<open>Reset\<close>, and the scope is not released.\<close>

lemma Dial_NewPeerConnection_failure_panics:
  "Dial (smoothWorld\<lparr>newPeerConnection := Some (External ''out of memory'')\<rparr>) dialAddr ''QmB''
     = (Panics ''nil pointer dereference'',
        [Connect ''QmB'' (Some [Component P_P2P ''QmRelay'', Component P_CIRCUIT []]),
         OpenConnection dialAddr, SetPeer ''QmB'', NewStream, SetService, ReserveMemory 8192,
         SetDeadline, PcCloseNil, StreamClose, ReleaseMemory 4096])"
  by (simp add: dial_defs smoothWorld_def maxMsgSize_def dialAddr_def getRelayAddr_def
      SplitFunc_def Encapsulate_def P_P2P_def P_CIRCUIT_def P_WEBRTC_def)

text \<open>
  Claim C2 says that every failure of \<open>Dial\<close> after the connection management scope was
  opened releases the scope exactly once. When \<open>scope.SetPeer\<close> fails, \<open>Dial\<close> returns the
  error without calling \<open>scope.Done\<close>: the scope is released zero times. (Lemma
  \<open>Dial_ScopeDone\<close> shows that once \<open>SetPeer\<close> has succeeded there is one \<open>Done\<close> whenever
  \<open>Dial\<close> returns an error and none when it returns a connection.)
\<close>

theorem Dial_SetPeer_failure_keeps_scope:
  "Dial (smoothWorld\<lparr>setPeer := Some (External ''resource limit exceeded'')\<rparr>) dialAddr ''QmB''
     = (Returns (Inl (External ''resource limit exceeded'')),
        [Connect ''QmB'' (Some [Component P_P2P ''QmRelay'', Component P_CIRCUIT []]),
         OpenConnection dialAddr, SetPeer ''QmB'']) \<and>
   count_list (snd (Dial (smoothWorld\<lparr>setPeer := Some (External ''resource limit exceeded'')\<rparr>)
                      dialAddr ''QmB'')) ScopeDone = 0"
  by (simp add: Dial_def Let_def smoothWorld_def dialAddr_def getRelayAddr_def SplitFunc_def
      Encapsulate_def P_P2P_def P_CIRCUIT_def P_WEBRTC_def)

text \<open>
  Claim C7 says that all reserved signaling memory is released on every exit path of
  \<open>dialWithScope\<close>. The dialer reserves \<open>2 * maxMsgSize = 8192\<close> bytes before any wire I/O
  (lemma \<open>not_wireIO_before_reservation\<close>) but the deferred release gives back \<open>maxMsgSize =
  4096\<close>: on a successful dial 4096 bytes are still reserved when \<open>dialWithScope\<close> returns.
  (Lemma \<open>dialWithScope_reservedMemory\<close> shows the same on every exit path after the
  reservation.)
\<close>

theorem dialWithScope_keeps_half_of_reservation:
  "fst (dialWithScope smoothWorld ''QmB'' dialAddr)
     = Returns (Inr \<lparr>localAddr = [Component P_IP4 ''192.0.2.1'', Component P_WEBRTC []],
                     remoteAddr = dialAddr\<rparr>) \<and>
   filter (\<lambda>c. c = ReserveMemory 8192 \<or> c = ReleaseMemory 4096)
     (snd (dialWithScope smoothWorld ''QmB'' dialAddr)) = [ReserveMemory 8192, ReleaseMemory 4096] \<and>
   reservedMemory (snd (dialWithScope smoothWorld ''QmB'' dialAddr)) = 4096"
  by (simp add: dial_defs smoothWorld_def maxMsgSize_def Encapsulate_def WebRTCAddr_def)

end
